theory Spec2Isabelle
  imports Main "HOL-Library.Word" "HOL-Library.Finite_Map"
begin

unbundle bit_operations_syntax

section \<open>go-clipsync: the HTTP chunked-poll transport and the snapshot model\<close>

text \<open>
  A shallow embedding of the package \<^verbatim>\<open>internal\<close> (types \<^verbatim>\<open>Item\<close> and \<^verbatim>\<open>Snapshot\<close>,
  function \<^verbatim>\<open>QuickKey\<close>), of \<^verbatim>\<open>internal/net/client.go\<close> (\<^verbatim>\<open>bodyCap\<close>,
  \<^verbatim>\<open>mustJSON\<close>) and of \<^verbatim>\<open>poll.go\<close> of the package \<^verbatim>\<open>net\<close> (\<^verbatim>\<open>Send\<close>,
  \<^verbatim>\<open>postChunkWithRetry\<close>, \<^verbatim>\<open>Poll\<close>, \<^verbatim>\<open>discover\<close>, \<^verbatim>\<open>fetchChunk\<close>,
  \<^verbatim>\<open>state.assemble\<close>, \<^verbatim>\<open>randomID\<close>).

  Go's \<^verbatim>\<open>[]byte\<close> is a list of 8-bit words, Go's \<^verbatim>\<open>string\<close> is a \<^typ>\<open>string\<close>
  (a list of 8-bit characters), Go's \<^verbatim>\<open>int\<close> and \<^verbatim>\<open>int64\<close> are \<^typ>\<open>int\<close>: the only
  arithmetic on them is a loop counter bounded by a slice length or by the declared
  total, which cannot overflow. A nil slice and an empty slice are the same list, a nil
  map and an empty map the same finite map (the code never writes to its nil map, see
  \<open>Poll_body\<close>).
\<close>

type_synonym byte = "8 word"
type_synonym bytes = "byte list"

definition bytes_of_string :: "string \<Rightarrow> bytes" where
  "bytes_of_string s = map of_char s"

definition string_of_bytes :: "bytes \<Rightarrow> string" where
  "string_of_bytes b = map (\<lambda>x. char_of (unat x)) b"

subsection \<open>Items and snapshots\<close>

record Item =
  Fmt :: "32 word"
  Payload :: string
  ByteLen :: int
  FmtName :: string
  MimeType :: string

record Snapshot =
  Origin :: string
  TS :: int
  Items :: "Item list"
  Quick :: string

subsection \<open>SHA-256 (Go's crypto/sha256, FIPS 180-4)\<close>

text \<open>
  \<^verbatim>\<open>QuickKey\<close> calls \<^verbatim>\<open>sha256.New()\<close>, \<^verbatim>\<open>Write\<close> and \<^verbatim>\<open>Sum\<close> of the standard
  library. The digest is modelled as the algorithm of the standard, on 32-bit words.
\<close>

text \<open>The round constants, eight to a row.\<close>

definition K256 :: "32 word list" where
  "K256 = concat
   [[0x428a2f98, 0x71374491, 0xb5c0fbcf, 0xe9b5dba5, 0x3956c25b, 0x59f111f1, 0x923f82a4, 0xab1c5ed5],
    [0xd807aa98, 0x12835b01, 0x243185be, 0x550c7dc3, 0x72be5d74, 0x80deb1fe, 0x9bdc06a7, 0xc19bf174],
    [0xe49b69c1, 0xefbe4786, 0x0fc19dc6, 0x240ca1cc, 0x2de92c6f, 0x4a7484aa, 0x5cb0a9dc, 0x76f988da],
    [0x983e5152, 0xa831c66d, 0xb00327c8, 0xbf597fc7, 0xc6e00bf3, 0xd5a79147, 0x06ca6351, 0x14292967],
    [0x27b70a85, 0x2e1b2138, 0x4d2c6dfc, 0x53380d13, 0x650a7354, 0x766a0abb, 0x81c2c92e, 0x92722c85],
    [0xa2bfe8a1, 0xa81a664b, 0xc24b8b70, 0xc76c51a3, 0xd192e819, 0xd6990624, 0xf40e3585, 0x106aa070],
    [0x19a4c116, 0x1e376c08, 0x2748774c, 0x34b0bcb5, 0x391c0cb3, 0x4ed8aa4a, 0x5b9cca4f, 0x682e6ff3],
    [0x748f82ee, 0x78a5636f, 0x84c87814, 0x8cc70208, 0x90befffa, 0xa4506ceb, 0xbef9a3f7, 0xc67178f2]]"

definition H256 :: "32 word list" where
  "H256 = [0x6a09e667, 0xbb67ae85, 0x3c6ef372, 0xa54ff53a,
           0x510e527f, 0x9b05688c, 0x1f83d9ab, 0x5be0cd19]"

definition rotr :: "nat \<Rightarrow> 32 word \<Rightarrow> 32 word" where
  "rotr n x = (drop_bit n x) OR (push_bit (32 - n) x)"

definition Ch :: "32 word \<Rightarrow> 32 word \<Rightarrow> 32 word \<Rightarrow> 32 word" where
  "Ch x y z = (x AND y) XOR (NOT x AND z)"

definition Maj :: "32 word \<Rightarrow> 32 word \<Rightarrow> 32 word \<Rightarrow> 32 word" where
  "Maj x y z = (x AND y) XOR (x AND z) XOR (y AND z)"

definition bsig0 :: "32 word \<Rightarrow> 32 word" where
  "bsig0 x = rotr 2 x XOR rotr 13 x XOR rotr 22 x"

definition bsig1 :: "32 word \<Rightarrow> 32 word" where
  "bsig1 x = rotr 6 x XOR rotr 11 x XOR rotr 25 x"

definition ssig0 :: "32 word \<Rightarrow> 32 word" where
  "ssig0 x = rotr 7 x XOR rotr 18 x XOR drop_bit 3 x"

definition ssig1 :: "32 word \<Rightarrow> 32 word" where
  "ssig1 x = rotr 17 x XOR rotr 19 x XOR drop_bit 10 x"

text \<open>Big-endian packing of four bytes into a word, and back.\<close>

definition be32 :: "byte \<Rightarrow> byte \<Rightarrow> byte \<Rightarrow> byte \<Rightarrow> 32 word" where
  "be32 a b c d = push_bit 24 (ucast a) OR push_bit 16 (ucast b) OR push_bit 8 (ucast c) OR ucast d"

fun words_of :: "bytes \<Rightarrow> 32 word list" where
  "words_of (a # b # c # d # r) = be32 a b c d # words_of r"
| "words_of _ = []"

definition bytes_of_word :: "32 word \<Rightarrow> bytes" where
  "bytes_of_word w = [ucast (drop_bit 24 w), ucast (drop_bit 16 w), ucast (drop_bit 8 w), ucast w]"

definition len_bytes :: "64 word \<Rightarrow> bytes" where
  "len_bytes bits = map (\<lambda>k. ucast (drop_bit (8 * (7 - k)) bits)) [0..<8]"

definition pad :: "bytes \<Rightarrow> bytes" where
  "pad m = m @ [0x80] @ replicate ((119 - length m mod 64) mod 64) 0 @ len_bytes (8 * of_nat (length m))"

text \<open>Message schedule: 16 words of the block, extended to 64.\<close>

fun schedule :: "nat \<Rightarrow> 32 word list \<Rightarrow> 32 word list" where
  "schedule 0 w = w"
| "schedule (Suc n) w =
     schedule n (w @ [ssig1 (w ! (length w - 2)) + w ! (length w - 7)
                      + ssig0 (w ! (length w - 15)) + w ! (length w - 16)])"

definition round256 :: "32 word list \<Rightarrow> 32 word \<times> 32 word \<Rightarrow> 32 word list" where
  "round256 s kw =
     (case s of [a, b, c, d, e, f, g, h] \<Rightarrow>
        let t1 = h + bsig1 e + Ch e f g + fst kw + snd kw;
            t2 = bsig0 a + Maj a b c
        in [t1 + t2, a, b, c, d + t1, e, f, g]
      | _ \<Rightarrow> s)"

definition compress :: "32 word list \<Rightarrow> 32 word list \<Rightarrow> 32 word list" where
  "compress hs block =
     map2 (+) hs (foldl round256 hs (zip K256 (schedule 48 block)))"

fun blocks :: "nat \<Rightarrow> 32 word list \<Rightarrow> 32 word list \<Rightarrow> 32 word list" where
  "blocks 0 hs ws = hs"
| "blocks (Suc n) hs ws = blocks n (compress hs (take 16 ws)) (drop 16 ws)"

definition sha256_Sum :: "bytes \<Rightarrow> bytes" where
  "sha256_Sum m =
     (let ws = words_of (pad m)
      in concat (map bytes_of_word (blocks (length ws div 16) H256 ws)))"

subsection \<open>QuickKey\<close>

text \<open>
  \<^verbatim>\<open>h.Write([]byte(it.Payload))\<close> appends to the bytes the hash has absorbed (the
  accumulator of the \<open>foldl\<close>), \<^verbatim>\<open>h.Sum(nil)\<close> is the digest of all of them, and
  \<^verbatim>\<open>[:8]\<close> keeps its first eight bytes.
\<close>

definition QuickKey :: "Item list \<Rightarrow> string" where
  "QuickKey items =
     (if length items = 0 then ''empty''
      else string_of_bytes
             (take 8 (sha256_Sum (foldl (\<lambda>h it. h @ bytes_of_string (Payload it)) [] items))))"

subsection \<open>The chunk codec: slicing in \<open>Send\<close>, merging in \<open>state.assemble\<close>\<close>

definition bodyCap :: nat where
  "bodyCap = 32 * 1024 * 1024"

definition chunkSize :: nat where
  "chunkSize = 300 * 1024"

text \<open>Go's \<^verbatim>\<open>body[i:end]\<close>, for \<open>i \<le> end \<le> len(body)\<close> (the only way the loop calls it).\<close>

definition slice :: "'a list \<Rightarrow> nat \<Rightarrow> nat \<Rightarrow> 'a list" where
  "slice xs i e = take (e - i) (drop i xs)"

text \<open>
  The loop \<^verbatim>\<open>for i := 0; i < len(body); i += chunkSize\<close> of \<^verbatim>\<open>Send\<close>, with the
  counter and the slice of chunks built so far as arguments.
\<close>

function Send_chunks :: "bytes \<Rightarrow> nat \<Rightarrow> bytes list \<Rightarrow> bytes list" where
  "Send_chunks body i chunks =
     (if i < length body then
        let end' = (if i + chunkSize > length body then length body else i + chunkSize)
        in Send_chunks body (i + chunkSize) (chunks @ [slice body i end'])
      else chunks)"
  by pat_completeness auto
termination
  by (relation "measure (\<lambda>(body, i, chunks). length body - i)") (auto simp: chunkSize_def)

declare Send_chunks.simps [simp del]

text \<open>The transfer-session state of the receiving side.\<close>

record state =
  cid :: string
  total :: int
  parts :: "(int, bytes) fmap"

definition state_zero :: state where
  "state_zero = \<lparr>cid = [], total = 0, parts = fmempty\<rparr>"

text \<open>\<^verbatim>\<open>s.parts[i]\<close>: a missing key reads as the nil slice.\<close>

definition part_at :: "(int, bytes) fmap \<Rightarrow> int \<Rightarrow> bytes" where
  "part_at ps i = (case fmlookup ps i of None \<Rightarrow> [] | Some p \<Rightarrow> p)"

text \<open>The loop \<^verbatim>\<open>for i := 0; i < s.total; i++ { full = append(full, s.parts[i]...) }\<close>.\<close>

function assemble_loop :: "(int, bytes) fmap \<Rightarrow> int \<Rightarrow> int \<Rightarrow> bytes \<Rightarrow> bytes" where
  "assemble_loop ps i tot full =
     (if i < tot then assemble_loop ps (i + 1) tot (full @ part_at ps i) else full)"
  by pat_completeness auto
termination
  by (relation "measure (\<lambda>(ps, i, tot, full). nat (tot - i))") auto

declare assemble_loop.simps [simp del]

text \<open>\<^verbatim>\<open>len(s.parts)\<close>: the number of keys of the map.\<close>

definition len_parts :: "state \<Rightarrow> int" where
  "len_parts s = int (fcard (fmdom (parts s)))"

text \<open>
  \<^verbatim>\<open>state.assemble\<close>. \<open>unmarshal\<close> is \<^verbatim>\<open>json.Unmarshal(full, &snap)\<close> into a fresh
  \<^verbatim>\<open>Snapshot\<close> (standard library): \<open>None\<close> when it returns an error. The result
  \<open>None\<close> is the nil pointer.
\<close>

definition assemble :: "(bytes \<Rightarrow> Snapshot option) \<Rightarrow> state \<Rightarrow> Snapshot option" where
  "assemble unmarshal s =
     (if total s = 0 \<or> len_parts s \<noteq> total s then None
      else unmarshal (assemble_loop (parts s) 0 (total s) []))"

text \<open>
  ``All parts supplied'': the receiver's map holds exactly the chunks of \<open>chunks\<close>, under
  their 0-based indices.
\<close>

definition supplied :: "bytes list \<Rightarrow> (int, bytes) fmap \<Rightarrow> bool" where
  "supplied chunks ps \<longleftrightarrow>
     fmdom' ps = int ` {0..<length chunks} \<and>
     (\<forall>j<length chunks. fmlookup ps (int j) = Some (chunks ! j))"

subsection \<open>The network and the standard library, as the code sees them\<close>

text \<open>
  A request as \<^verbatim>\<open>http.NewRequest\<close> and the \<^verbatim>\<open>req.Header.Set\<close> calls build it. The
  chunk headers are absent (\<open>None\<close>) where the code does not set them. \<^verbatim>\<open>X-Chunk-Idx\<close>
  and \<^verbatim>\<open>X-Chunk-Total\<close> carry the integer that \<^verbatim>\<open>strconv.Itoa\<close> prints. The
  \<^verbatim>\<open>X-Auth-Token\<close> (a function of the clock and the key) and the constant
  \<^verbatim>\<open>Content-Type\<close> are left out.
\<close>

record request =
  Method :: string
  URL :: string
  X_Device_Id :: string
  X_Chunk_Id :: "string option"
  X_Chunk_Idx :: "int option"
  X_Chunk_Total :: "int option"
  Body :: bytes

text \<open>
  A response: \<open>RespBody\<close> is what \<^verbatim>\<open>io.ReadAll(resp.Body)\<close> delivers (the code drops
  the read error and keeps the bytes read).
\<close>

record response =
  StatusCode :: int
  Status :: string
  RespBody :: bytes

text \<open>
  The error values the code builds: \<^verbatim>\<open>errors.New(msg)\<close>,
  \<^verbatim>\<open>fmt.Errorf("POST chunk %d: %w", idx, err)\<close>,
  \<^verbatim>\<open>fmt.Errorf("chunk %d: status %d: %s", idx, resp.StatusCode, body)\<close>, and the errors
  that \<^verbatim>\<open>http.NewRequest\<close>, \<^verbatim>\<open>c.client.Do\<close> and the JSON decoder return.
\<close>

datatype error =
    errors_New string
  | POST_chunk_error int string
  | chunk_status_error int int bytes
  | NewRequest_error string
  | Do_error string
  | Decode_error

text \<open>
  What the code calls and does not define, over a world \<open>'w\<close> that the calls advance:
  \<^item> \<open>NewRequest method url\<close>: \<open>Some msg\<close> when \<^verbatim>\<open>http.NewRequest\<close> returns an error;
  \<^item> \<open>Do req w\<close>: \<^verbatim>\<open>c.client.Do(req)\<close>, a transport error (\<open>Inl\<close>) or a response;
  \<^item> \<open>Marshal\<close>: \<^verbatim>\<open>json.Marshal\<close> of a \<^verbatim>\<open>Snapshot\<close> (it cannot fail on this type, so
    \<^verbatim>\<open>mustJSON\<close> never panics);
  \<^item> \<open>Unmarshal\<close>: \<^verbatim>\<open>json.Unmarshal\<close> into a fresh \<^verbatim>\<open>Snapshot\<close>;
  \<^item> \<open>Decode_accepts b\<close>: \<^verbatim>\<open>json.NewDecoder(body).Decode(&meta)\<close> returns no error on
    the body \<open>b\<close> for a struct target;
  \<^item> \<open>rand_Read n w\<close>: the \<open>n\<close> bytes that \<^verbatim>\<open>rand.Read\<close> writes;
  \<^item> \<open>ctx_Done w\<close>: the context is cancelled.
\<close>

record 'w env =
  NewRequest :: "string \<Rightarrow> string \<Rightarrow> string option"
  Do :: "request \<Rightarrow> 'w \<Rightarrow> (string + response) \<times> 'w"
  Marshal :: "Snapshot \<Rightarrow> bytes"
  Unmarshal :: "bytes \<Rightarrow> Snapshot option"
  Decode_accepts :: "bytes \<Rightarrow> bool"
  rand_Read :: "nat \<Rightarrow> 'w \<Rightarrow> bytes \<times> 'w"
  ctx_Done :: "'w \<Rightarrow> bool"

text \<open>The world together with the requests handed to \<^verbatim>\<open>c.client.Do\<close> so far, in order.\<close>

record 'w io =
  world :: 'w
  sent :: "request list"

definition client_Do :: "'w env \<Rightarrow> request \<Rightarrow> 'w io \<Rightarrow> (string + response) \<times> 'w io" where
  "client_Do E req s =
     (case Do E req (world s) of (r, w') \<Rightarrow> (r, \<lparr>world = w', sent = sent s @ [req]\<rparr>))"

text \<open>\<^verbatim>\<open>httpClient\<close> with its embedded \<^verbatim>\<open>shared\<close> (fields \<^verbatim>\<open>id\<close> and \<^verbatim>\<open>key64\<close>).\<close>

record httpClient =
  url :: string
  shared_id :: string
  shared_key64 :: "64 word"

definition mustJSON :: "'w env \<Rightarrow> Snapshot \<Rightarrow> bytes" where
  "mustJSON E v = Marshal E v"

text \<open>\<^verbatim>\<open>fmt.Sprintf("%x", b)\<close>: two lower-case hexadecimal digits for each byte.\<close>

definition hex_digit :: "nat \<Rightarrow> char" where
  "hex_digit n = ''0123456789abcdef'' ! n"

definition hex :: "bytes \<Rightarrow> string" where
  "hex b = concat (map (\<lambda>x. [hex_digit (unat x div 16), hex_digit (unat x mod 16)]) b)"

definition randomID :: "'w env \<Rightarrow> nat \<Rightarrow> 'w io \<Rightarrow> string \<times> 'w io" where
  "randomID E n s = (case rand_Read E n (world s) of (b, w') \<Rightarrow> (hex b, s\<lparr>world := w'\<rparr>))"

subsection \<open>Send\<close>

definition maxRetries :: int where
  "maxRetries = 5"

definition post_request :: "httpClient \<Rightarrow> bytes \<Rightarrow> string \<Rightarrow> int \<Rightarrow> int \<Rightarrow> request" where
  "post_request c chunkData cid' idx tot =
     \<lparr>Method = ''POST'', URL = url c, X_Device_Id = shared_id c, X_Chunk_Id = Some cid',
      X_Chunk_Idx = Some idx, X_Chunk_Total = Some tot, Body = chunkData\<rparr>"

text \<open>
  The loop \<^verbatim>\<open>for retry := 0; retry <= maxRetries; retry++\<close> of \<^verbatim>\<open>postChunkWithRetry\<close>,
  with \<^verbatim>\<open>retry\<close> and \<^verbatim>\<open>lastErr\<close> as arguments. The jittered \<^verbatim>\<open>time.Sleep\<close> between
  attempts and the \<^verbatim>\<open>delay\<close> it computes (floating point, random) change no value the
  function returns or sends; they are left out.
\<close>

function postChunkWithRetry_loop ::
  "'w env \<Rightarrow> httpClient \<Rightarrow> bytes \<Rightarrow> string \<Rightarrow> int \<Rightarrow> int \<Rightarrow> int \<Rightarrow> int \<Rightarrow> error option \<Rightarrow> 'w io
     \<Rightarrow> error option \<times> 'w io" where
  "postChunkWithRetry_loop E c chunkData cid' idx tot maxR retry lastErr s =
     (if retry \<le> maxR then
        (case NewRequest E ''POST'' (url c) of
           Some err \<Rightarrow> (Some (NewRequest_error err), s)
         | None \<Rightarrow>
            (case client_Do E (post_request c chunkData cid' idx tot) s of
               (Inl err, s') \<Rightarrow>
                  postChunkWithRetry_loop E c chunkData cid' idx tot maxR (retry + 1)
                    (Some (POST_chunk_error idx err)) s'
             | (Inr resp, s') \<Rightarrow>
                  if 200 \<le> StatusCode resp \<and> StatusCode resp < 300 then (None, s')
                  else postChunkWithRetry_loop E c chunkData cid' idx tot maxR (retry + 1)
                         (Some (chunk_status_error idx (StatusCode resp) (RespBody resp))) s'))
      else (lastErr, s))"
  by pat_completeness auto
termination
  by (relation "measure (\<lambda>(E, c, chunkData, cid', idx, tot, maxR, retry, lastErr, s).
                  nat (maxR + 1 - retry))") auto

declare postChunkWithRetry_loop.simps [simp del]

definition postChunkWithRetry ::
  "'w env \<Rightarrow> httpClient \<Rightarrow> bytes \<Rightarrow> string \<Rightarrow> int \<Rightarrow> int \<Rightarrow> int \<Rightarrow> 'w io \<Rightarrow> error option \<times> 'w io" where
  "postChunkWithRetry E c chunkData cid' idx tot maxR s =
     postChunkWithRetry_loop E c chunkData cid' idx tot maxR 0 None s"

text \<open>
  One attempt, seen from outside: \<open>attempt_fails\<close> when \<^verbatim>\<open>Do\<close> returns a transport
  error or a status outside 200..299; \<open>attempt_error\<close> is the \<^verbatim>\<open>lastErr\<close> the loop
  records for it; \<open>world_after E req k w\<close> is the world after \<open>k\<close> attempts of the
  request \<open>req\<close> from the world \<open>w\<close>.
\<close>

definition attempt_fails :: "'w env \<Rightarrow> request \<Rightarrow> 'w \<Rightarrow> bool" where
  "attempt_fails E req w =
     (case fst (Do E req w) of
        Inl err \<Rightarrow> True
      | Inr resp \<Rightarrow> \<not> (200 \<le> StatusCode resp \<and> StatusCode resp < 300))"

definition attempt_error :: "int \<Rightarrow> string + response \<Rightarrow> error" where
  "attempt_error idx r =
     (case r of
        Inl err \<Rightarrow> POST_chunk_error idx err
      | Inr resp \<Rightarrow> chunk_status_error idx (StatusCode resp) (RespBody resp))"

primrec world_after :: "'w env \<Rightarrow> request \<Rightarrow> nat \<Rightarrow> 'w \<Rightarrow> 'w" where
  "world_after E req 0 w = w"
| "world_after E req (Suc k) w = world_after E req k (snd (Do E req w))"

text \<open>
  The loop \<^verbatim>\<open>for idx, part := range chunks\<close> of \<^verbatim>\<open>Send\<close>, from index \<open>idx\<close> on;
  \<^verbatim>\<open>totalHdr := len(chunks)\<close> is computed in every iteration.
\<close>

function Send_upload ::
  "'w env \<Rightarrow> httpClient \<Rightarrow> string \<Rightarrow> bytes list \<Rightarrow> nat \<Rightarrow> 'w io \<Rightarrow> error option \<times> 'w io" where
  "Send_upload E c cid' chunks idx s =
     (if idx < length chunks then
        let part = chunks ! idx; totalHdr = int (length chunks) in
        (case postChunkWithRetry E c part cid' (int idx) totalHdr maxRetries s of
           (Some err, s') \<Rightarrow> (Some err, s')
         | (None, s') \<Rightarrow> Send_upload E c cid' chunks (idx + 1) s')
      else (None, s))"
  by pat_completeness auto
termination
  by (relation "measure (\<lambda>(E, c, cid', chunks, idx, s). length chunks - idx)") auto

declare Send_upload.simps [simp del]

text \<open>
  The first lines of \<^verbatim>\<open>Send\<close>: \<^verbatim>\<open>body\<close>, the serialised snapshot with its quick key
  attached, and \<^verbatim>\<open>chunks\<close>, the slices of \<^verbatim>\<open>body\<close>.
\<close>

definition Send_body :: "'w env \<Rightarrow> Snapshot \<Rightarrow> bytes" where
  "Send_body E snap0 = mustJSON E (snap0\<lparr>Quick := QuickKey (Items snap0)\<rparr>)"

definition Send_parts :: "'w env \<Rightarrow> Snapshot \<Rightarrow> bytes list" where
  "Send_parts E snap0 = Send_chunks (Send_body E snap0) 0 []"

definition Send :: "'w env \<Rightarrow> httpClient \<Rightarrow> Snapshot \<Rightarrow> 'w io \<Rightarrow> error option \<times> 'w io" where
  "Send E c snap0 s =
     (let body = Send_body E snap0
      in if length body > bodyCap then (Some (errors_New ''snapshot >32 MiB, dropped''), s)
         else
           let chunks = Send_parts E snap0 in
           (case randomID E 8 s of
              (cid', s1) \<Rightarrow> Send_upload E c cid' chunks 0 s1))"

subsection \<open>Poll\<close>

text \<open>
  \<^verbatim>\<open>discoverResp\<close>. Its Go fields are \<^verbatim>\<open>cid\<close>, \<^verbatim>\<open>total\<close> and \<^verbatim>\<open>have\<close> (suffixed
  here: \<^verbatim>\<open>state\<close> has fields of the same names, and \<open>have\<close> is a keyword).
\<close>

record discoverResp =
  cid_resp :: string
  total_resp :: int
  have_resp :: "int list"

definition discoverResp_zero :: discoverResp where
  "discoverResp_zero = \<lparr>cid_resp = [], total_resp = 0, have_resp = []\<rparr>"

text \<open>
  \<^verbatim>\<open>json.NewDecoder(resp.Body).Decode(&meta)\<close> for \<^verbatim>\<open>var meta discoverResp\<close>. The
  package \<^verbatim>\<open>encoding/json\<close> reads and writes only the exported fields of a struct (those
  whose name starts with an upper-case letter), whatever their tags say. The three fields
  of \<^verbatim>\<open>discoverResp\<close> are lower-case, hence unexported: a \<^verbatim>\<open>Decode\<close> that succeeds
  skips every member of the object and leaves \<^verbatim>\<open>meta\<close> at its zero value.
\<close>

definition Decode_discoverResp :: "'w env \<Rightarrow> bytes \<Rightarrow> discoverResp option" where
  "Decode_discoverResp E b = (if Decode_accepts E b then Some discoverResp_zero else None)"

definition discover_request :: "httpClient \<Rightarrow> request" where
  "discover_request c =
     \<lparr>Method = ''GET'', URL = url c, X_Device_Id = shared_id c, X_Chunk_Id = None,
      X_Chunk_Idx = None, X_Chunk_Total = None, Body = []\<rparr>"

definition fetch_request :: "httpClient \<Rightarrow> string \<Rightarrow> int \<Rightarrow> request" where
  "fetch_request c cid' idx =
     \<lparr>Method = ''GET'', URL = url c, X_Device_Id = shared_id c, X_Chunk_Id = Some cid',
      X_Chunk_Idx = Some idx, X_Chunk_Total = None, Body = []\<rparr>"

text \<open>
  \<^verbatim>\<open>discover\<close> and \<^verbatim>\<open>fetchChunk\<close> drop the error of \<^verbatim>\<open>http.NewRequestWithContext\<close>:
  when it fails, \<^verbatim>\<open>req\<close> is nil and \<^verbatim>\<open>req.Header.Set\<close> panics. The result \<open>None\<close> is
  that panic.
\<close>

definition discover ::
  "'w env \<Rightarrow> httpClient \<Rightarrow> 'w io \<Rightarrow> ((error + discoverResp) \<times> 'w io) option" where
  "discover E c s =
     (case NewRequest E ''GET'' (url c) of
        Some err \<Rightarrow> None
      | None \<Rightarrow>
         (case client_Do E (discover_request c) s of
            (Inl err, s') \<Rightarrow> Some (Inl (Do_error err), s')
          | (Inr resp, s') \<Rightarrow>
              (case Decode_discoverResp E (RespBody resp) of
                 None \<Rightarrow> Some (Inl Decode_error, s')
               | Some meta \<Rightarrow> Some (Inr meta, s'))))"

definition fetchChunk ::
  "'w env \<Rightarrow> httpClient \<Rightarrow> string \<Rightarrow> int \<Rightarrow> 'w io \<Rightarrow> ((error + bytes) \<times> 'w io) option" where
  "fetchChunk E c cid' idx s =
     (case NewRequest E ''GET'' (url c) of
        Some err \<Rightarrow> None
      | None \<Rightarrow>
         (case client_Do E (fetch_request c cid' idx) s of
            (Inl err, s') \<Rightarrow> Some (Inl (Do_error err), s')
          | (Inr resp, s') \<Rightarrow>
              if StatusCode resp \<noteq> 200 then Some (Inl (errors_New (Status resp)), s')
              else Some (Inr (take (chunkSize + 1024) (RespBody resp)), s')))"

text \<open>
  The loop \<^verbatim>\<open>for _, idx := range meta.have\<close> of \<^verbatim>\<open>Poll\<close>: an index already held is
  skipped, a fetch that fails is dropped, a fetch that succeeds is stored.
\<close>

fun Poll_fetch ::
  "'w env \<Rightarrow> httpClient \<Rightarrow> int list \<Rightarrow> state \<Rightarrow> 'w io \<Rightarrow> (state \<times> 'w io) option" where
  "Poll_fetch E c [] cur s = Some (cur, s)"
| "Poll_fetch E c (idx # rest) cur s =
     (if idx |\<in>| fmdom (parts cur) then Poll_fetch E c rest cur s
      else
        (case fetchChunk E c (cid cur) idx s of
           None \<Rightarrow> None
         | Some (Inl err, s') \<Rightarrow> Poll_fetch E c rest cur s'
         | Some (Inr data, s') \<Rightarrow>
             Poll_fetch E c rest (cur\<lparr>parts := fmupd idx data (parts cur)\<rparr>) s'))"

text \<open>
  The state of the loop: the session in progress, what has been written to the channel
  \<^verbatim>\<open>out\<close> (oldest first; the channel's capacity, at which the send blocks, is not
  modelled), and the world.
\<close>

record 'w poll_state =
  current :: state
  out :: "Snapshot list"
  io :: "'w io"

text \<open>
  The block \<^verbatim>\<open>// assemble if complete\<close> of the loop, on the session \<open>cur\<close> and the
  channel content \<open>out0\<close>: when the count of parts equals the positive total, the
  snapshot that \<open>assemble\<close> returns is sent on the channel if it is not nil and its
  origin is not \<^verbatim>\<open>c.id\<close>, and the session is reset to \<^verbatim>\<open>state{}\<close>.
\<close>

definition Poll_complete ::
  "'w env \<Rightarrow> httpClient \<Rightarrow> state \<Rightarrow> Snapshot list \<Rightarrow> state \<times> Snapshot list" where
  "Poll_complete E c cur out0 =
     (if total cur > 0 \<and> len_parts cur = total cur then
        (case assemble (Unmarshal E) cur of
           Some snap \<Rightarrow>
             if Origin snap \<noteq> shared_id c then (state_zero, out0 @ [snap]) else (state_zero, out0)
         | None \<Rightarrow> (state_zero, out0))
      else (cur, out0))"

text \<open>
  The body of the loop after a \<^verbatim>\<open>discover\<close> that returned \<open>meta\<close> without error: the
  new-snapshot test, the fetch loop, and the assemble-if-complete block. The only write to
  \<^verbatim>\<open>current.parts\<close> is in the fetch loop, under \<^verbatim>\<open>current.cid != ""\<close>, where the map was
  made by \<^verbatim>\<open>make\<close>: the nil map of \<^verbatim>\<open>state{}\<close> is never written.
\<close>

definition Poll_body ::
  "'w env \<Rightarrow> httpClient \<Rightarrow> discoverResp \<Rightarrow> 'w poll_state \<Rightarrow> 'w poll_state option" where
  "Poll_body E c meta st =
     (let cur0 = (if cid_resp meta \<noteq> [] \<and> cid_resp meta \<noteq> cid (current st)
                  then \<lparr>cid = cid_resp meta, total = total_resp meta, parts = fmempty\<rparr>
                  else current st)
      in if cid cur0 \<noteq> [] then
           (case Poll_fetch E c (have_resp meta) cur0 (io st) of
              None \<Rightarrow> None
            | Some (cur, s') \<Rightarrow>
                (case Poll_complete E c cur (out st) of
                   (cur', out') \<Rightarrow> Some \<lparr>current = cur', out = out', io = s'\<rparr>))
         else Some \<lparr>current = cur0, out = out st, io = io st\<rparr>)"

text \<open>
  One iteration of \<^verbatim>\<open>for { ... }\<close> past the cancellation test: \<^verbatim>\<open>discover\<close>, then
  \<^verbatim>\<open>continue\<close> on its error, the body otherwise. The two \<^verbatim>\<open>time.Sleep\<close> calls are
  left out.
\<close>

definition Poll_iter :: "'w env \<Rightarrow> httpClient \<Rightarrow> 'w poll_state \<Rightarrow> 'w poll_state option" where
  "Poll_iter E c st =
     (case discover E c (io st) of
        None \<Rightarrow> None
      | Some (Inl err, s') \<Rightarrow> Some (st\<lparr>io := s'\<rparr>)
      | Some (Inr meta, s') \<Rightarrow> Poll_body E c meta (st\<lparr>io := s'\<rparr>))"

definition Poll_init :: "'w \<Rightarrow> 'w poll_state" where
  "Poll_init w = \<lparr>current = state_zero, out = [], io = \<lparr>world = w, sent = []\<rparr>\<rparr>"

text \<open>
  The states of the loop of \<^verbatim>\<open>Poll\<close>, started in the world \<open>w\<close>: the loop goes on while
  the context is not cancelled and no call panics.
\<close>

inductive Poll_reach :: "'w env \<Rightarrow> httpClient \<Rightarrow> 'w \<Rightarrow> 'w poll_state \<Rightarrow> bool"
  for E :: "'w env" and c :: httpClient and w :: 'w where
  start: "Poll_reach E c w (Poll_init w)"
| iter: "Poll_reach E c w st \<Longrightarrow> \<not> ctx_Done E (world (io st)) \<Longrightarrow> Poll_iter E c st = Some st'
         \<Longrightarrow> Poll_reach E c w st'"

text \<open>
  The same loop when \<^verbatim>\<open>discover\<close> may return anything: after the discover request,
  either an error (the iteration changes nothing else) or any \<open>meta\<close>, on which the body
  runs. Every state of \<open>Poll_reach\<close> is one of these.
\<close>

inductive Poll_reach_any :: "'w env \<Rightarrow> httpClient \<Rightarrow> 'w \<Rightarrow> 'w poll_state \<Rightarrow> bool"
  for E :: "'w env" and c :: httpClient and w :: 'w where
  start_any: "Poll_reach_any E c w (Poll_init w)"
| error_any: "Poll_reach_any E c w st \<Longrightarrow> sent s' = sent (io st) @ [discover_request c]
         \<Longrightarrow> Poll_reach_any E c w (st\<lparr>io := s'\<rparr>)"
| body_any: "Poll_reach_any E c w st \<Longrightarrow> sent s' = sent (io st) @ [discover_request c]
         \<Longrightarrow> Poll_body E c meta (st\<lparr>io := s'\<rparr>) = Some st'
         \<Longrightarrow> Poll_reach_any E c w st'"



subsection \<open>Concrete inputs\<close>

text \<open>
  The inputs at which the theorems below are instantiated. \<open>demo_Unmarshal\<close> stands for
  \<^verbatim>\<open>json.Unmarshal\<close> on the documents used here: it decodes
  \<^verbatim>\<open>{"origin":"other"}\<close> and \<^verbatim>\<open>{"origin":"deadbeef"}\<close> as the library does (the other
  fields keep their zero values) and rejects the byte strings used here that are not JSON.
\<close>

definition payload_700KiB :: bytes where
  "payload_700KiB = replicate 716800 0x20"

definition parts_700KiB :: "(int, bytes) fmap" where
  "parts_700KiB =
     fmupd 2 (replicate 102400 0x20)
       (fmupd 0 (replicate 307200 0x20) (fmupd 1 (replicate 307200 0x20) fmempty))"

definition origin_json :: "string \<Rightarrow> bytes" where
  "origin_json o' =
     bytes_of_string
       (''{'' @ [CHR 0x22] @ ''origin'' @ [CHR 0x22] @ '':'' @ [CHR 0x22] @ o' @ [CHR 0x22] @ ''}'')"

definition origin_snapshot :: "string \<Rightarrow> Snapshot" where
  "origin_snapshot o' = \<lparr>Origin = o', TS = 0, Items = [], Quick = []\<rparr>"

definition demo_Unmarshal :: "bytes \<Rightarrow> Snapshot option" where
  "demo_Unmarshal b =
     (if b = origin_json ''other'' then Some (origin_snapshot ''other'')
      else if b = origin_json ''deadbeef'' then Some (origin_snapshot ''deadbeef'')
      else None)"

definition demo_client :: httpClient where
  "demo_client = \<lparr>url = ''http://localhost:5002/clip'', shared_id = ''deadbeef'', shared_key64 = 0\<rparr>"

text \<open>\<^verbatim>\<open>Item{Payload: p}\<close>, as the tests of \<^verbatim>\<open>QuickKey\<close> build their items.\<close>

definition item_of :: "string \<Rightarrow> Item" where
  "item_of p = \<lparr>Fmt = 0, Payload = p, ByteLen = 0, FmtName = [], MimeType = []\<rparr>"

text \<open>
  Two clipboards: the items \<^verbatim>\<open>abc\<close> and \<^verbatim>\<open>def\<close> (in base64), and the single item
  \<^verbatim>\<open>abcdef\<close>.
\<close>

definition items_abc_def :: "Item list" where
  "items_abc_def = [item_of ''YWJj'', item_of ''ZGVm'']"

definition items_abcdef :: "Item list" where
  "items_abcdef = [item_of ''YWJjZGVm'']"

text \<open>
  A world that counts the requests answered. \<open>demo_env m d\<close> serialises with \<open>m\<close> and
  answers requests with \<open>d\<close>; every URL parses, \<^verbatim>\<open>rand.Read\<close> writes the byte
  \<^verbatim>\<open>0xab\<close>, the context is never cancelled, and the decoder of \<^verbatim>\<open>discover\<close> accepts a
  body that starts with an opening brace (every body used here that does is a JSON
  object).
\<close>

definition demo_env ::
  "(Snapshot \<Rightarrow> bytes) \<Rightarrow> (request \<Rightarrow> nat \<Rightarrow> (string + response) \<times> nat) \<Rightarrow> nat env" where
  "demo_env m d =
     \<lparr>NewRequest = (\<lambda>method u. None), Do = d, Marshal = m, Unmarshal = demo_Unmarshal,
      Decode_accepts = (\<lambda>b. take 1 b = bytes_of_string ''{''),
      rand_Read = (\<lambda>n w. (replicate n 0xab, w)), ctx_Done = (\<lambda>w. False)\<rparr>"

definition reply :: "int \<Rightarrow> bytes \<Rightarrow> string + response" where
  "reply code b = Inr \<lparr>StatusCode = code, Status = [], RespBody = b\<rparr>"

text \<open>A server that answers every request with the status \<open>code\<close>.\<close>

definition Do_status :: "int \<Rightarrow> request \<Rightarrow> nat \<Rightarrow> (string + response) \<times> nat" where
  "Do_status code req w = (reply code [], w + 1)"

text \<open>A server that answers its first \<open>k\<close> requests with 500 and the later ones with 200.\<close>

definition Do_fail_first :: "nat \<Rightarrow> request \<Rightarrow> nat \<Rightarrow> (string + response) \<times> nat" where
  "Do_fail_first k req w = (if w < k then reply 500 [] else reply 200 [], w + 1)"

text \<open>Serialisations of fixed content: 700 KiB, and one byte more than 32 MiB.\<close>

definition Marshal_700KiB :: "Snapshot \<Rightarrow> bytes" where
  "Marshal_700KiB v = payload_700KiB"

definition Marshal_over_cap :: "Snapshot \<Rightarrow> bytes" where
  "Marshal_over_cap v = replicate 33554433 0x20"

definition io0 :: "nat io" where
  "io0 = \<lparr>world = 0, sent = []\<rparr>"

text \<open>
  A server that answers every request with status 200 and a body of 400000 bytes, and a
  session \<^verbatim>\<open>abc\<close> of two parts with nothing received yet.
\<close>

definition Do_oversized :: "request \<Rightarrow> nat \<Rightarrow> (string + response) \<times> nat" where
  "Do_oversized req w = (reply 200 (replicate 400000 0x41), w + 1)"

definition session_abc :: state where
  "session_abc = \<lparr>cid = ''abc'', total = 2, parts = fmempty\<rparr>"

text \<open>
  A chunk set with declared total 2 that holds two parts, under the indices 0 and 7: part
  0 is a whole JSON document, part 7 is not JSON.
\<close>

definition state_0_7 :: state where
  "state_0_7 =
     \<lparr>cid = ''abc'', total = 2,
      parts = fmupd 0 (origin_json ''other'') (fmupd 7 (bytes_of_string ''junk'') fmempty)\<rparr>"

text \<open>
  The document \<^verbatim>\<open>{"origin":"other"}\<close> cut in two parts after its ninth byte, held
  complete under the indices 0 and 1; and a complete chunk set whose only part is not JSON.
\<close>

definition state_0_1 :: state where
  "state_0_1 =
     \<lparr>cid = ''abc'', total = 2,
      parts = fmupd 0 (take 9 (origin_json ''other''))
                (fmupd 1 (drop 9 (origin_json ''other'')) fmempty)\<rparr>"

definition state_junk :: state where
  "state_junk = \<lparr>cid = ''abc'', total = 1, parts = fmupd 0 (bytes_of_string ''junk'') fmempty\<rparr>"

text \<open>A serialisation of 21 bytes, which is one chunk.\<close>

definition Marshal_small :: "Snapshot \<Rightarrow> bytes" where
  "Marshal_small v = origin_json ''deadbeef''"

text \<open>
  The session id that \<open>randomID\<close> draws in \<open>demo_env\<close>, the POST of the single chunk of
  \<open>Marshal_small\<close>, and the POST of the first of the three chunks of \<open>Marshal_700KiB\<close>.
\<close>

definition demo_cid :: string where
  "demo_cid = ''abababababababab''"

definition post_small :: request where
  "post_small = post_request demo_client (origin_json ''deadbeef'') demo_cid 0 1"

definition post_700KiB :: "nat \<Rightarrow> request" where
  "post_700KiB i =
     post_request demo_client ([replicate 307200 0x20, replicate 307200 0x20, replicate 102400 0x20] ! i)
       demo_cid (int i) 3"

text \<open>
  The discover answer \<^verbatim>\<open>{"cid":"abc","total":2,"have":[0,1]}\<close>, the \<open>meta\<close> it is
  meant to decode to, and a server that holds the document \<open>doc\<close> in two parts, cut
  after its ninth byte: it answers a request without chunk index with the discover
  answer, a fetch of index 0 or 1 with that part, and any other fetch with 404.
\<close>

definition discover_body :: bytes where
  "discover_body =
     bytes_of_string
       (''{'' @ [CHR 0x22] @ ''cid'' @ [CHR 0x22] @ '':'' @ [CHR 0x22] @ ''abc'' @ [CHR 0x22]
        @ '','' @ [CHR 0x22] @ ''total'' @ [CHR 0x22] @ '':2,'' @ [CHR 0x22] @ ''have'' @ [CHR 0x22]
        @ '':[0,1]}'')"

definition meta_abc :: discoverResp where
  "meta_abc = \<lparr>cid_resp = ''abc'', total_resp = 2, have_resp = [0, 1]\<rparr>"

definition Do_server :: "bytes \<Rightarrow> request \<Rightarrow> nat \<Rightarrow> (string + response) \<times> nat" where
  "Do_server doc req w =
     (case X_Chunk_Idx req of
        None \<Rightarrow> reply 200 discover_body
      | Some i \<Rightarrow>
          if i = 0 then reply 200 (take 9 doc)
          else if i = 1 then reply 200 (drop 9 doc)
          else reply 404 [],
      w + 1)"

text \<open>The loop state after the discover request of the first iteration.\<close>

definition after_discover :: "nat poll_state" where
  "after_discover =
     \<lparr>current = state_zero, out = [], io = \<lparr>world = 1, sent = [discover_request demo_client]\<rparr>\<rparr>"

text \<open>
  The session \<^verbatim>\<open>abc\<close> once both parts of \<open>doc\<close> have been fetched from \<open>Do_server doc\<close>,
  and the world and requests after the discover request and the two fetches.
\<close>

definition state_fetched :: "bytes \<Rightarrow> state" where
  "state_fetched doc =
     \<lparr>cid = ''abc'', total = 2, parts = fmupd 1 (drop 9 doc) (fmupd 0 (take 9 doc) fmempty)\<rparr>"

definition after_fetch :: "nat io" where
  "after_fetch =
     \<lparr>world = 3,
      sent = [discover_request demo_client, fetch_request demo_client ''abc'' 0,
              fetch_request demo_client ''abc'' 1]\<rparr>"

text \<open>
  The state in which the upload loop of \<^verbatim>\<open>Send\<close>, started in \<open>s\<close>, arrives at the
  index \<open>idx\<close>: every chunk before \<open>idx\<close> has gone through \<open>postChunkWithRetry\<close> without
  error. \<open>None\<close> when an earlier chunk has failed (and \<^verbatim>\<open>Send\<close> has returned its error).
\<close>

fun Send_upload_reaches ::
  "'w env \<Rightarrow> httpClient \<Rightarrow> string \<Rightarrow> bytes list \<Rightarrow> nat \<Rightarrow> 'w io \<Rightarrow> 'w io option" where
  "Send_upload_reaches E c cid' chunks 0 s = Some s"
| "Send_upload_reaches E c cid' chunks (Suc j) s =
     (case Send_upload_reaches E c cid' chunks j s of
        None \<Rightarrow> None
      | Some sj \<Rightarrow>
          (case postChunkWithRetry E c (chunks ! j) cid' (int j) (int (length chunks)) maxRetries sj of
             (None, s') \<Rightarrow> Some s'
           | (Some err, s') \<Rightarrow> None))"

text \<open>A server that answers 500 to every POST of the chunk index \<open>j\<close> and 200 to the others.\<close>

definition Do_reject_idx :: "int \<Rightarrow> request \<Rightarrow> nat \<Rightarrow> (string + response) \<times> nat" where
  "Do_reject_idx j req w = (if X_Chunk_Idx req = Some j then reply 500 [] else reply 200 [], w + 1)"

section \<open>Properties\<close>

subsection \<open>The chunk codec\<close>

lemma slice_rest:
  "i < length body \<Longrightarrow>
   slice body i (if i + chunkSize > length body then length body else i + chunkSize)
     @ drop (i + chunkSize) body = drop i body"
  by (auto simp: slice_def add.commute simp flip: drop_drop)

lemma Send_chunks_concat:
  "concat (Send_chunks body i chunks) = concat chunks @ drop i body"
proof (induction body i chunks rule: Send_chunks.induct)
  case (1 body i chunks)
  show ?case
  proof (cases "i < length body")
    case True
    then show ?thesis
      using "1.IH" [OF True refl] slice_rest [OF True]
      by (subst Send_chunks.simps) (simp add: Let_def)
  next
    case False
    then show ?thesis
      by (subst Send_chunks.simps) simp
  qed
qed

lemma assemble_loop_closed:
  "assemble_loop ps i tot full = full @ concat (map (part_at ps) [i..tot - 1])"
proof (induction ps i tot full rule: assemble_loop.induct)
  case (1 ps i tot full)
  show ?case
  proof (cases "i < tot")
    case True
    have "[i..tot - 1] = i # [i + 1..tot - 1]"
      using True by (simp add: upto_rec1)
    then show ?thesis
      using "1.IH" [OF True] True by (subst assemble_loop.simps) simp
  next
    case False
    then show ?thesis
      by (subst assemble_loop.simps) simp
  qed
qed

lemma upto_map_int: "[0..int n - 1] = map int [0..<n]"
proof (induction n)
  case 0
  show ?case by simp
next
  case (Suc n)
  have "[0..int (Suc n) - 1] = [0..int n - 1] @ [int n]"
    by (simp add: upto_rec2)
  then show ?case using Suc by simp
qed

lemma supplied_concat:
  assumes "supplied chunks ps"
  shows "concat (map (part_at ps) [0..int (length chunks) - 1]) = concat chunks"
proof -
  have "map (part_at ps) (map int [0..<length chunks]) = map (\<lambda>j. chunks ! j) [0..<length chunks]"
    using assms by (simp add: supplied_def part_at_def)
  then show ?thesis
    by (simp add: upto_map_int map_nth)
qed

lemma supplied_len:
  assumes "supplied chunks ps"
  shows "int (fcard (fmdom ps)) = int (length chunks)"
proof -
  have "fset (fmdom ps) = int ` {0..<length chunks}"
    using assms by (simp add: supplied_def fmdom'_alt_def)
  then have "card (fset (fmdom ps)) = length chunks"
    by (simp add: card_image)
  then show ?thesis
    by (simp add: fcard.rep_eq)
qed

lemma Send_chunks_nonempty:
  assumes "body \<noteq> []"
  shows "Send_chunks body 0 [] \<noteq> []"
proof
  assume "Send_chunks body 0 [] = []"
  then have "concat (Send_chunks body 0 []) = []" by simp
  then show False using assms by (simp add: Send_chunks_concat)
qed


lemma Send_chunks_700KiB:
  assumes "length body = 716800"
  shows "Send_chunks body 0 [] =
           [take 307200 body, take 307200 (drop 307200 body), drop 614400 body]"
proof -
  have 3: "Send_chunks body 921600 cs = cs" for cs
    using assms by (subst Send_chunks.simps) simp
  have 2: "Send_chunks body 614400 cs = cs @ [drop 614400 body]" for cs
    using assms 3 by (subst Send_chunks.simps) (simp add: chunkSize_def slice_def)
  have 1: "Send_chunks body 307200 cs = cs @ [take 307200 (drop 307200 body), drop 614400 body]" for cs
    using assms 2 by (subst Send_chunks.simps) (simp add: chunkSize_def slice_def)
  show ?thesis
    using assms 1 by (subst Send_chunks.simps) (simp add: chunkSize_def slice_def)
qed

lemma payload_700KiB_chunks:
  "Send_chunks payload_700KiB 0 [] =
     [replicate 307200 0x20, replicate 307200 0x20, replicate 102400 0x20]"
  by (simp add: Send_chunks_700KiB payload_700KiB_def)

lemma parts_700KiB_supplied: "supplied (Send_chunks payload_700KiB 0 []) parts_700KiB"
  unfolding payload_700KiB_chunks supplied_def
proof (intro conjI allI impI)
  show "fmdom' parts_700KiB =
        int ` {0..<length [replicate 307200 (0x20::byte), replicate 307200 0x20, replicate 102400 0x20]}"
    by (auto simp: parts_700KiB_def)
next
  fix j
  assume "j < length [replicate 307200 (0x20::byte), replicate 307200 0x20, replicate 102400 0x20]"
  then have "j = 0 \<or> j = 1 \<or> j = 2" by auto
  then show "fmlookup parts_700KiB (int j) =
             Some ([replicate 307200 (0x20::byte), replicate 307200 0x20, replicate 102400 0x20] ! j)"
    by (auto simp: parts_700KiB_def)
qed

text \<open>
  C1. For every payload \<open>P\<close>, cut by the chunking loop of \<open>Send\<close> at the part size of
  300 KiB: when the receiver holds all the parts under their indices, the index-order
  concatenation of \<open>state.assemble\<close> (its \<open>for\<close> loop) rebuilds \<open>P\<close> byte for byte. For
  a payload that is not empty, as every serialised \<open>Snapshot\<close> is, \<open>assemble\<close> passes
  its guard and hands exactly \<open>P\<close> to the JSON decoder. (For the empty payload there are
  no parts and the declared total is 0: the guard \<open>s.total == 0\<close> of \<open>assemble\<close> returns nil
  before the loop.)
\<close>

theorem chunking_roundtrip:
  fixes P :: bytes
  assumes "supplied (Send_chunks P 0 []) ps"
  shows "assemble_loop ps 0 (int (length (Send_chunks P 0 []))) [] = P
       \<and> (P \<noteq> [] \<longrightarrow>
            assemble unmarshal \<lparr>cid = c, total = int (length (Send_chunks P 0 [])), parts = ps\<rparr>
              = unmarshal P)"
proof -
  have full: "assemble_loop ps 0 (int (length (Send_chunks P 0 []))) [] = P"
    using supplied_concat [OF assms] Send_chunks_concat [of P 0 "[]"]
    by (simp add: assemble_loop_closed)
  have nz: "P \<noteq> [] \<Longrightarrow> int (length (Send_chunks P 0 [])) \<noteq> 0"
    using Send_chunks_nonempty [of P] by simp
  have len: "len_parts \<lparr>cid = c, total = int (length (Send_chunks P 0 [])), parts = ps\<rparr>
      = int (length (Send_chunks P 0 []))"
    using supplied_len [OF assms] by (simp add: len_parts_def)
  show ?thesis
    using full nz len by (simp add: assemble_def)
qed

theorem chunking_roundtrip_witness:
  "supplied (Send_chunks payload_700KiB 0 []) parts_700KiB
   \<and> payload_700KiB \<noteq> []
   \<and> assemble_loop parts_700KiB 0 (int (length (Send_chunks payload_700KiB 0 []))) [] = payload_700KiB
   \<and> assemble demo_Unmarshal
        \<lparr>cid = ''abc'', total = int (length (Send_chunks payload_700KiB 0 [])), parts = parts_700KiB\<rparr>
       = demo_Unmarshal payload_700KiB"
proof -
  have ne: "payload_700KiB \<noteq> []"
    by (simp add: payload_700KiB_def)
  show ?thesis
    using chunking_roundtrip [OF parts_700KiB_supplied, of demo_Unmarshal "''abc''"] ne
      parts_700KiB_supplied
    by simp
qed

subsection \<open>QuickKey\<close>

lemma foldl_payload:
  "foldl (\<lambda>h it. h @ bytes_of_string (Payload it)) acc items
     = acc @ bytes_of_string (concat (map Payload items))"
  by (induction items arbitrary: acc) (simp_all add: bytes_of_string_def)

lemma length_round256: "length s = 8 \<Longrightarrow> length (round256 s kw) = 8"
  by (auto simp: round256_def Let_def split: list.splits)

lemma length_foldl_round256: "length s = 8 \<Longrightarrow> length (foldl round256 s kws) = 8"
  by (induction kws arbitrary: s) (simp_all add: length_round256)

lemma length_compress: "length hs = 8 \<Longrightarrow> length (compress hs b) = 8"
  by (simp add: compress_def length_foldl_round256)

lemma length_blocks: "length hs = 8 \<Longrightarrow> length (blocks n hs ws) = 8"
  by (induction n arbitrary: hs ws) (simp_all add: length_compress)

lemma length_concat_bytes_of_word: "length (concat (map bytes_of_word ws)) = 4 * length ws"
  by (induction ws) (simp_all add: bytes_of_word_def)

lemma length_sha256_Sum: "length (sha256_Sum m) = 32"
  by (simp add: sha256_Sum_def Let_def length_concat_bytes_of_word length_blocks H256_def)

lemma QuickKey_nonempty:
  "items \<noteq> [] \<Longrightarrow>
   QuickKey items = string_of_bytes (take 8 (sha256_Sum (bytes_of_string (concat (map Payload items)))))"
  by (simp add: QuickKey_def foldl_payload)

lemma length_QuickKey: "items \<noteq> [] \<Longrightarrow> length (QuickKey items) = 8"
  by (simp add: QuickKey_nonempty string_of_bytes_def length_sha256_Sum)

text \<open>
  The model of the digest on the test vector \<^verbatim>\<open>abc\<close> of the standard, and the keys of
  the item lists of \<^verbatim>\<open>TestQuickKey\<close> and \<^verbatim>\<open>TestQuickKeyEmpty\<close>: identical items give
  the same key, the two lists of the test give different keys of eight bytes, and no
  items give \<^verbatim>\<open>empty\<close>.
\<close>

lemma sha256_Sum_abc:
  "sha256_Sum (bytes_of_string ''abc'') =
     [0xba, 0x78, 0x16, 0xbf, 0x8f, 0x01, 0xcf, 0xea, 0x41, 0x41, 0x40, 0xde, 0x5d, 0xae, 0x22, 0x23,
      0xb0, 0x03, 0x61, 0xa3, 0x96, 0x17, 0x7a, 0x9c, 0xb4, 0x10, 0xff, 0x61, 0xf2, 0x00, 0x15, 0xad]"
  by code_simp

lemma QuickKey_hello:
  "QuickKey [item_of ''aGVsbG8=''] = string_of_bytes [0x33, 0x3d, 0x6b, 0x3a, 0x3c, 0x1f, 0x5d, 0xb6]"
  by code_simp

lemma QuickKey_hello_world:
  "QuickKey [item_of ''aGVsbG8='', item_of ''d29ybGQ='']
     = string_of_bytes [0x25, 0x04, 0x6c, 0xf3, 0xd2, 0x4e, 0xb9, 0xec]"
  by code_simp

lemma TestQuickKey:
  "QuickKey [item_of ''aGVsbG8='', item_of ''d29ybGQ='']
     \<noteq> QuickKey [item_of ''aGVsbG8='']
   \<and> length (QuickKey [item_of ''aGVsbG8='', item_of ''d29ybGQ='']) = 8
   \<and> length (QuickKey [item_of ''aGVsbG8='']) = 8
   \<and> QuickKey [] = ''empty''"
  by (simp add: QuickKey_hello QuickKey_hello_world string_of_bytes_def) (simp add: QuickKey_def)

text \<open>
  C9, as stated, fails: two non-empty item sequences that differ in payload content have
  the same key. \<open>QuickKey\<close> hashes the concatenation of the payload strings, so the
  two items \<^verbatim>\<open>YWJj\<close>, \<^verbatim>\<open>ZGVm\<close> and the single item \<^verbatim>\<open>YWJjZGVm\<close> collide, whatever the
  hash function is.
\<close>

theorem QuickKey_collision:
  "items_abc_def \<noteq> [] \<and> items_abcdef \<noteq> []
   \<and> map Payload items_abc_def \<noteq> map Payload items_abcdef
   \<and> Payload (hd items_abc_def) \<noteq> Payload (hd items_abcdef)
   \<and> QuickKey items_abc_def = QuickKey items_abcdef"
  by (simp add: QuickKey_nonempty items_abc_def_def items_abcdef_def item_of_def)

text \<open>
  C9, amended. The key of the empty sequence is \<open>''empty''\<close>. The key of a non-empty
  sequence is the first eight bytes of the SHA-256 digest of the concatenation of its
  payload strings: it is eight bytes long, so it is never the sentinel, and two
  non-empty sequences whose payloads concatenate to the same string have the same key
  (so keys that differ come from concatenations that differ, not the converse).
\<close>

theorem QuickKey_concat:
  "QuickKey [] = ''empty''
   \<and> (A \<noteq> [] \<longrightarrow>
        QuickKey A = string_of_bytes (take 8 (sha256_Sum (bytes_of_string (concat (map Payload A)))))
        \<and> length (QuickKey A) = 8 \<and> QuickKey A \<noteq> ''empty'')
   \<and> (A \<noteq> [] \<longrightarrow> B \<noteq> [] \<longrightarrow> concat (map Payload A) = concat (map Payload B)
        \<longrightarrow> QuickKey A = QuickKey B)
   \<and> (A \<noteq> [] \<longrightarrow> B \<noteq> [] \<longrightarrow> QuickKey A \<noteq> QuickKey B
        \<longrightarrow> concat (map Payload A) \<noteq> concat (map Payload B))"
proof -
  have e: "QuickKey [] = ''empty''"
    by (simp add: QuickKey_def)
  have n: "QuickKey A \<noteq> ''empty''" if "A \<noteq> []"
  proof
    assume "QuickKey A = ''empty''"
    then have "length (QuickKey A) = 5" by simp
    then show False using length_QuickKey [OF that] by simp
  qed
  have c: "QuickKey A = QuickKey B"
    if "A \<noteq> []" "B \<noteq> []" "concat (map Payload A) = concat (map Payload B)"
    using that by (simp add: QuickKey_nonempty)
  show ?thesis
    using e n c QuickKey_nonempty [of A] length_QuickKey [of A] by blast
qed

theorem QuickKey_concat_witness:
  "items_abc_def \<noteq> [] \<and> items_abcdef \<noteq> []
   \<and> concat (map Payload items_abc_def) = concat (map Payload items_abcdef)
   \<and> QuickKey items_abc_def = QuickKey items_abcdef
   \<and> length (QuickKey items_abc_def) = 8 \<and> QuickKey items_abc_def \<noteq> ''empty''"
proof -
  have 1: "items_abc_def \<noteq> []" and 2: "items_abcdef \<noteq> []"
    and 3: "concat (map Payload items_abc_def) = concat (map Payload items_abcdef)"
    by (simp_all add: items_abc_def_def items_abcdef_def item_of_def)
  show ?thesis
    using QuickKey_concat [of items_abc_def items_abcdef] 1 2 3 by blast
qed

subsection \<open>Send: the size cap\<close>

text \<open>
  C5, as stated, fails in the text of the error. Above the cap \<open>Send\<close> returns the
  value \<^verbatim>\<open>errors.New("snapshot >32 MiB, dropped")\<close>; it never returns an error with the
  text \<^verbatim>\<open>too large, dropped\<close>.
\<close>

theorem Send_over_cap_text:
  "length (Send_body (demo_env Marshal_over_cap (Do_status 200)) (origin_snapshot ''deadbeef'')) > bodyCap
   \<and> fst (Send (demo_env Marshal_over_cap (Do_status 200)) demo_client (origin_snapshot ''deadbeef'') io0)
       = Some (errors_New ''snapshot >32 MiB, dropped'')
   \<and> fst (Send (demo_env Marshal_over_cap (Do_status 200)) demo_client (origin_snapshot ''deadbeef'') io0)
       \<noteq> Some (errors_New ''too large, dropped'')"
proof -
  have big: "length (Send_body (demo_env Marshal_over_cap (Do_status 200)) (origin_snapshot ''deadbeef''))
     > bodyCap"
    by (simp add: Send_body_def mustJSON_def demo_env_def Marshal_over_cap_def bodyCap_def)
  then have "Send (demo_env Marshal_over_cap (Do_status 200)) demo_client (origin_snapshot ''deadbeef'') io0
       = (Some (errors_New ''snapshot >32 MiB, dropped''), io0)"
    by (simp add: Send_def Let_def)
  then show ?thesis
    using big by simp
qed

text \<open>
  C5, amended. When the serialised \<open>Snapshot\<close> (with its quick key attached) is longer
  than \<open>bodyCap\<close> = 32 MiB, \<open>Send\<close> returns its size-exceeded error, whose text is
  \<^verbatim>\<open>snapshot >32 MiB, dropped\<close>, and leaves the world and the list of requests sent as
  they were: no POST is issued for any part, and no session id is drawn.
\<close>

theorem Send_over_cap:
  assumes "length (Send_body E snap) > bodyCap"
  shows "Send E c snap s = (Some (errors_New ''snapshot >32 MiB, dropped''), s)"
  using assms by (simp add: Send_def Let_def)

theorem Send_over_cap_witness:
  "length (Send_body (demo_env Marshal_over_cap (Do_status 200)) (origin_snapshot ''deadbeef''))
     > bodyCap
   \<and> Send (demo_env Marshal_over_cap (Do_status 200)) demo_client (origin_snapshot ''deadbeef'') io0
       = (Some (errors_New ''snapshot >32 MiB, dropped''), io0)
   \<and> sent io0 = []"
proof -
  have big: "length (Send_body (demo_env Marshal_over_cap (Do_status 200)) (origin_snapshot ''deadbeef''))
     > bodyCap"
    by (simp add: Send_body_def mustJSON_def demo_env_def Marshal_over_cap_def bodyCap_def)
  show ?thesis
    using Send_over_cap [OF big, of demo_client io0] big by (simp add: io0_def)
qed

subsection \<open>fetchChunk\<close>

lemma fetchChunk_bound:
  "fetchChunk E c cid' idx s = Some (Inr data, s') \<Longrightarrow> length data \<le> 300 * 1024 + 1024"
  by (auto simp: fetchChunk_def client_Do_def chunkSize_def
           split: option.splits prod.splits sum.splits if_splits)

lemma fetchChunk_200:
  assumes "NewRequest E ''GET'' (url c) = None"
    and "Do E (fetch_request c cid' idx) (world s) = (Inr resp, w')"
    and "StatusCode resp = 200"
  shows "fetchChunk E c cid' idx s =
           Some (Inr (take (300 * 1024 + 1024) (RespBody resp)),
                 \<lparr>world = w', sent = sent s @ [fetch_request c cid' idx]\<rparr>)"
  using assms by (simp add: fetchChunk_def client_Do_def chunkSize_def)

text \<open>
  C10. Whatever the response, the data \<open>fetchChunk\<close> returns is at most
  \<open>300 * 1024 + 1024\<close> bytes long. A part served with status 200 and a longer body is
  not rejected: \<open>fetchChunk\<close> returns the first \<open>300 * 1024 + 1024\<close> bytes of the body,
  without an error, and the fetch loop of \<open>Poll\<close> stores that truncated part in the
  chunk-set state under its index.
\<close>

theorem fetchChunk_truncates:
  "(\<forall>data s'. fetchChunk E c cid' idx s = Some (Inr data, s') \<longrightarrow> length data \<le> 300 * 1024 + 1024)
   \<and> (NewRequest E ''GET'' (url c) = None
        \<and> Do E (fetch_request c (cid cur) idx) (world s) = (Inr resp, w')
        \<and> StatusCode resp = 200 \<and> length (RespBody resp) > 300 * 1024 + 1024
      \<longrightarrow> fetchChunk E c (cid cur) idx s =
            Some (Inr (take (300 * 1024 + 1024) (RespBody resp)),
                  \<lparr>world = w', sent = sent s @ [fetch_request c (cid cur) idx]\<rparr>)
          \<and> take (300 * 1024 + 1024) (RespBody resp) \<noteq> RespBody resp
          \<and> (idx |\<notin>| fmdom (parts cur) \<longrightarrow>
               Poll_fetch E c [idx] cur s =
                 Some (cur\<lparr>parts := fmupd idx (take (300 * 1024 + 1024) (RespBody resp)) (parts cur)\<rparr>,
                       \<lparr>world = w', sent = sent s @ [fetch_request c (cid cur) idx]\<rparr>)))"
proof (intro conjI allI impI)
  fix data s'
  assume "fetchChunk E c cid' idx s = Some (Inr data, s')"
  then show "length data \<le> 300 * 1024 + 1024" by (rule fetchChunk_bound)
next
  assume a: "NewRequest E ''GET'' (url c) = None
        \<and> Do E (fetch_request c (cid cur) idx) (world s) = (Inr resp, w')
        \<and> StatusCode resp = 200 \<and> length (RespBody resp) > 300 * 1024 + 1024"
  then show f: "fetchChunk E c (cid cur) idx s =
            Some (Inr (take (300 * 1024 + 1024) (RespBody resp)),
                  \<lparr>world = w', sent = sent s @ [fetch_request c (cid cur) idx]\<rparr>)"
    using fetchChunk_200 [of E c "cid cur" idx s resp w'] by simp
  have "length (take (300 * 1024 + 1024) (RespBody resp)) \<noteq> length (RespBody resp)"
    using a by simp
  then show "take (300 * 1024 + 1024) (RespBody resp) \<noteq> RespBody resp"
    by metis
  assume "idx |\<notin>| fmdom (parts cur)"
  then show "Poll_fetch E c [idx] cur s =
                 Some (cur\<lparr>parts := fmupd idx (take (300 * 1024 + 1024) (RespBody resp)) (parts cur)\<rparr>,
                       \<lparr>world = w', sent = sent s @ [fetch_request c (cid cur) idx]\<rparr>)"
    using f by simp
qed

theorem fetchChunk_truncates_witness:
  "NewRequest (demo_env Marshal_700KiB Do_oversized) ''GET'' (url demo_client) = None
   \<and> Do (demo_env Marshal_700KiB Do_oversized) (fetch_request demo_client (cid session_abc) 0) (world io0)
       = (Inr \<lparr>StatusCode = 200, Status = [], RespBody = replicate 400000 0x41\<rparr>, 1)
   \<and> length (replicate 400000 (0x41 :: byte)) > 300 * 1024 + 1024
   \<and> 0 |\<notin>| fmdom (parts session_abc)
   \<and> fetchChunk (demo_env Marshal_700KiB Do_oversized) demo_client (cid session_abc) 0 io0
       = Some (Inr (replicate 308224 0x41),
               \<lparr>world = 1, sent = [fetch_request demo_client (cid session_abc) 0]\<rparr>)
   \<and> Poll_fetch (demo_env Marshal_700KiB Do_oversized) demo_client [0] session_abc io0
       = Some (session_abc\<lparr>parts := fmupd 0 (replicate 308224 0x41) fmempty\<rparr>,
               \<lparr>world = 1, sent = [fetch_request demo_client (cid session_abc) 0]\<rparr>)"
proof -
  let ?E = "demo_env Marshal_700KiB Do_oversized"
  let ?resp = "\<lparr>StatusCode = 200, Status = [], RespBody = replicate 400000 (0x41 :: byte)\<rparr>"
  have 1: "NewRequest ?E ''GET'' (url demo_client) = None"
    by (simp add: demo_env_def)
  have 2: "Do ?E (fetch_request demo_client (cid session_abc) 0) (world io0) = (Inr ?resp, 1)"
    by (simp add: demo_env_def Do_oversized_def reply_def io0_def)
  have 3: "StatusCode ?resp = 200" by simp
  have 4: "length (RespBody ?resp) > 300 * 1024 + 1024" by simp
  have 5: "0 |\<notin>| fmdom (parts session_abc)"
    by (simp add: session_abc_def)
  show ?thesis
    using fetchChunk_truncates [where E = ?E and c = demo_client and cur = session_abc
        and idx = 0 and s = io0 and resp = ?resp and w' = 1] 1 2 3 4 5
    by (simp add: io0_def session_abc_def)
qed

subsection \<open>state.assemble\<close>

lemma assemble_closed:
  "assemble u s =
     (if total s \<noteq> 0 \<and> len_parts s = total s
      then u (concat (map (part_at (parts s)) [0..total s - 1])) else None)"
  by (simp add: assemble_def assemble_loop_closed)

lemma len_parts_card: "len_parts s = int (card (fmdom' (parts s)))"
  by (simp add: len_parts_def fcard.rep_eq fmdom'_alt_def)

lemma len_parts_range:
  assumes "fmdom' (parts s) = {0..total s - 1}" and "total s > 0"
  shows "len_parts s = total s"
  using assms by (simp add: len_parts_card)

text \<open>
  C7, as stated, fails: \<open>assemble\<close> compares the number of parts held with the declared
  total, not the set of their indices. With declared total 2 and parts under the indices
  0 and 7, where part 0 is a whole JSON document, it returns a decoded \<open>Snapshot\<close>,
  although the index set \<open>{0, 7}\<close> is not \<open>{0, 1}\<close>.
\<close>

theorem assemble_counterexample:
  "assemble demo_Unmarshal state_0_7 = Some (origin_snapshot ''other'')
   \<and> fmdom' (parts state_0_7) = {0, 7}
   \<and> fmdom' (parts state_0_7) \<noteq> {0..total state_0_7 - 1}"
proof -
  have d: "fmdom' (parts state_0_7) = {0, 7}"
    by (auto simp: state_0_7_def)
  have l: "len_parts state_0_7 = 2"
    by (simp add: len_parts_card d)
  have "(7::int) \<notin> {0..total state_0_7 - 1}"
    by (simp add: state_0_7_def)
  then have n: "fmdom' (parts state_0_7) \<noteq> {0..total state_0_7 - 1}"
    using d by blast
  have u: "[0..(1::int)] = [0, 1]"
    by (simp add: upto_rec1)
  have a: "assemble demo_Unmarshal state_0_7 = Some (origin_snapshot ''other'')"
    using l by (simp add: assemble_closed u) (simp add: state_0_7_def part_at_def demo_Unmarshal_def)
  show ?thesis using a d n by simp
qed

text \<open>
  C7, amended. \<open>assemble\<close> returns a decoded \<open>Snapshot\<close> only when the declared total
  is positive and equals the number of parts held; what it decodes is the concatenation,
  in index order \<open>0, ..., total - 1\<close>, of the parts held under these indices (an index
  not held adds no bytes). It returns nil when the count differs from the declared total,
  and nil, not a crash, when that concatenation is not accepted by the JSON decoder. When the
  index set is exactly \<open>{0, ..., total - 1}\<close>, with a positive total, the count test
  passes and every part is in the concatenation.
\<close>

theorem assemble_by_count:
  "assemble u s =
     (if total s \<noteq> 0 \<and> len_parts s = total s
      then u (concat (map (part_at (parts s)) [0..total s - 1])) else None)
   \<and> (assemble u s = Some snap \<longrightarrow> total s > 0 \<and> len_parts s = total s)
   \<and> (len_parts s \<noteq> total s \<longrightarrow> assemble u s = None)
   \<and> (u (concat (map (part_at (parts s)) [0..total s - 1])) = None \<longrightarrow> assemble u s = None)
   \<and> (fmdom' (parts s) = {0..total s - 1} \<and> total s > 0 \<longrightarrow>
        assemble u s = u (concat (map (\<lambda>i. the (fmlookup (parts s) i)) [0..total s - 1])))"
proof (intro conjI impI)
  show "assemble u s =
     (if total s \<noteq> 0 \<and> len_parts s = total s
      then u (concat (map (part_at (parts s)) [0..total s - 1])) else None)"
    by (rule assemble_closed)
next
  assume "assemble u s = Some snap"
  then have g: "total s \<noteq> 0 \<and> len_parts s = total s"
    by (simp add: assemble_closed split: if_splits)
  moreover have "0 \<le> len_parts s" by (simp add: len_parts_def)
  ultimately show "total s > 0" by linarith
  show "len_parts s = total s" using g by simp
next
  assume "len_parts s \<noteq> total s"
  then show "assemble u s = None" by (simp add: assemble_closed)
next
  assume "u (concat (map (part_at (parts s)) [0..total s - 1])) = None"
  then show "assemble u s = None" by (simp add: assemble_closed)
next
  assume a: "fmdom' (parts s) = {0..total s - 1} \<and> total s > 0"
  have "map (part_at (parts s)) [0..total s - 1]
             = map (\<lambda>i. the (fmlookup (parts s) i)) [0..total s - 1]"
  proof (rule map_cong [OF refl])
    fix i assume "i \<in> set [0..total s - 1]"
    then have "i \<in> fmdom' (parts s)" using a by simp
    then obtain p where "fmlookup (parts s) i = Some p"
      by (auto simp: fmdom'_alt_def fmlookup_dom_iff)
    then show "part_at (parts s) i = the (fmlookup (parts s) i)"
      by (simp add: part_at_def)
  qed
  then have m: "u (concat (map (part_at (parts s)) [0..total s - 1]))
      = u (concat (map (\<lambda>i. the (fmlookup (parts s) i)) [0..total s - 1]))"
    by (rule arg_cong)
  have "assemble u s = u (concat (map (part_at (parts s)) [0..total s - 1]))"
    using a len_parts_range [of s] by (simp add: assemble_closed)
  then show "assemble u s = u (concat (map (\<lambda>i. the (fmlookup (parts s) i)) [0..total s - 1]))"
    using m by (rule trans)
qed

theorem assemble_by_count_witness:
  "fmdom' (parts state_0_1) = {0..total state_0_1 - 1} \<and> total state_0_1 > 0
   \<and> len_parts state_0_1 = total state_0_1
   \<and> assemble demo_Unmarshal state_0_1 = Some (origin_snapshot ''other'')
   \<and> len_parts session_abc \<noteq> total session_abc
   \<and> assemble demo_Unmarshal session_abc = None
   \<and> demo_Unmarshal (concat (map (part_at (parts state_junk)) [0..total state_junk - 1])) = None
   \<and> assemble demo_Unmarshal state_junk = None"
proof -
  have d: "fmdom' (parts state_0_1) = {0..total state_0_1 - 1}"
    by (auto simp: state_0_1_def)
  have t: "total state_0_1 > 0"
    by (simp add: state_0_1_def)
  have u: "[0..total state_0_1 - 1] = [0, 1]"
    by (simp add: state_0_1_def upto_rec1)
  have c: "concat (map (\<lambda>i. the (fmlookup (parts state_0_1) i)) [0..total state_0_1 - 1])
           = origin_json ''other''"
    unfolding u by (simp add: state_0_1_def)
  have "assemble demo_Unmarshal state_0_1
        = demo_Unmarshal (concat (map (\<lambda>i. the (fmlookup (parts state_0_1) i)) [0..total state_0_1 - 1]))"
    using assemble_by_count [of demo_Unmarshal state_0_1] d t by blast
  then have a: "assemble demo_Unmarshal state_0_1 = Some (origin_snapshot ''other'')"
    unfolding c by (simp add: demo_Unmarshal_def)
  have l: "len_parts state_0_1 = total state_0_1"
    using assemble_by_count [of demo_Unmarshal state_0_1 "origin_snapshot ''other''"] a by blast
  have n: "len_parts session_abc \<noteq> total session_abc"
    by (simp add: len_parts_card session_abc_def)
  have i: "assemble demo_Unmarshal session_abc = None"
    using assemble_by_count [of demo_Unmarshal session_abc] n by blast
  have "[0..total state_junk - 1] = [0]"
    by (simp add: state_junk_def)
  then have "concat (map (part_at (parts state_junk)) [0..total state_junk - 1]) = bytes_of_string ''junk''"
    by (simp add: state_junk_def part_at_def)
  moreover have "length (bytes_of_string ''junk'') = 4" "length (origin_json o') = 13 + length o'" for o'
    by (simp_all add: bytes_of_string_def origin_json_def)
  ultimately have j: "demo_Unmarshal (concat (map (part_at (parts state_junk)) [0..total state_junk - 1])) = None"
    by (auto simp: demo_Unmarshal_def)
  have k: "assemble demo_Unmarshal state_junk = None"
    using assemble_by_count [of demo_Unmarshal state_junk] j by blast
  show ?thesis
    using d t l a n i j k by blast
qed

subsection \<open>postChunkWithRetry and the upload loop\<close>

lemma loop_done:
  "\<not> retry \<le> maxR \<Longrightarrow>
   postChunkWithRetry_loop E c d cid' idx tot maxR retry lastErr s = (lastErr, s)"
  by (subst postChunkWithRetry_loop.simps) simp

lemma loop_fail_step:
  assumes "NewRequest E ''POST'' (url c) = None" and "retry \<le> maxR"
    and "attempt_fails E (post_request c d cid' idx tot) (world s)"
  shows "postChunkWithRetry_loop E c d cid' idx tot maxR retry lastErr s =
         postChunkWithRetry_loop E c d cid' idx tot maxR (retry + 1)
           (Some (attempt_error idx (fst (Do E (post_request c d cid' idx tot) (world s)))))
           \<lparr>world = snd (Do E (post_request c d cid' idx tot) (world s)),
            sent = sent s @ [post_request c d cid' idx tot]\<rparr>"
  using assms
  by (subst postChunkWithRetry_loop.simps)
     (auto simp: client_Do_def attempt_fails_def attempt_error_def split: prod.splits sum.splits)

lemma loop_success_step:
  assumes "NewRequest E ''POST'' (url c) = None" and "retry \<le> maxR"
    and "\<not> attempt_fails E (post_request c d cid' idx tot) (world s)"
  shows "postChunkWithRetry_loop E c d cid' idx tot maxR retry lastErr s =
         (None, \<lparr>world = snd (Do E (post_request c d cid' idx tot) (world s)),
                 sent = sent s @ [post_request c d cid' idx tot]\<rparr>)"
  using assms
  by (subst postChunkWithRetry_loop.simps)
     (auto simp: client_Do_def attempt_fails_def split: prod.splits sum.splits)

lemma loop_failures:
  assumes "NewRequest E ''POST'' (url c) = None"
    and "retry + int n \<le> maxR + 1"
    and "\<forall>k<n. attempt_fails E (post_request c d cid' idx tot)
                  (world_after E (post_request c d cid' idx tot) k (world s))"
  shows "postChunkWithRetry_loop E c d cid' idx tot maxR retry lastErr s =
         postChunkWithRetry_loop E c d cid' idx tot maxR (retry + int n)
           (if n = 0 then lastErr
            else Some (attempt_error idx (fst (Do E (post_request c d cid' idx tot)
                        (world_after E (post_request c d cid' idx tot) (n - 1) (world s))))))
           \<lparr>world = world_after E (post_request c d cid' idx tot) n (world s),
            sent = sent s @ replicate n (post_request c d cid' idx tot)\<rparr>"
  using assms(2,3)
proof (induction n arbitrary: retry lastErr s)
  case 0
  then show ?case by (cases s) simp
next
  case (Suc m)
  let ?req = "post_request c d cid' idx tot"
  let ?s1 = "\<lparr>world = snd (Do E ?req (world s)), sent = sent s @ [?req]\<rparr>"
  have r: "retry \<le> maxR" using Suc.prems(1) by simp
  have f0: "attempt_fails E ?req (world s)"
    using Suc.prems(2) [rule_format, of 0] by simp
  have fs: "\<forall>k<m. attempt_fails E ?req (world_after E ?req k (world ?s1))"
    using Suc.prems(2) by auto
  have step: "postChunkWithRetry_loop E c d cid' idx tot maxR retry lastErr s =
         postChunkWithRetry_loop E c d cid' idx tot maxR (retry + 1)
           (Some (attempt_error idx (fst (Do E ?req (world s))))) ?s1"
    by (rule loop_fail_step [OF assms(1) r f0])
  have ih: "postChunkWithRetry_loop E c d cid' idx tot maxR (retry + 1)
           (Some (attempt_error idx (fst (Do E ?req (world s))))) ?s1 =
         postChunkWithRetry_loop E c d cid' idx tot maxR (retry + 1 + int m)
           (if m = 0 then Some (attempt_error idx (fst (Do E ?req (world s))))
            else Some (attempt_error idx (fst (Do E ?req (world_after E ?req (m - 1) (world ?s1))))))
           \<lparr>world = world_after E ?req m (world ?s1), sent = sent ?s1 @ replicate m ?req\<rparr>"
    using Suc.prems(1) by (intro Suc.IH [OF _ fs]) simp
  have w: "m \<noteq> 0 \<Longrightarrow> world_after E ?req (m - 1) (world ?s1) = world_after E ?req m (world s)"
    by (cases m) simp_all
  show ?case
    unfolding step ih using w by (simp add: replicate_app_Cons_same add.assoc)
qed


lemma loop_exhausts:
  assumes "NewRequest E ''POST'' (url c) = None"
    and "retry \<le> maxR"
    and "\<forall>k<nat (maxR + 1 - retry). attempt_fails E (post_request c d cid' idx tot)
                  (world_after E (post_request c d cid' idx tot) k (world s))"
  shows "postChunkWithRetry_loop E c d cid' idx tot maxR retry lastErr s =
         (Some (attempt_error idx (fst (Do E (post_request c d cid' idx tot)
                  (world_after E (post_request c d cid' idx tot) (nat (maxR - retry)) (world s))))),
          \<lparr>world = world_after E (post_request c d cid' idx tot) (nat (maxR + 1 - retry)) (world s),
           sent = sent s @ replicate (nat (maxR + 1 - retry)) (post_request c d cid' idx tot)\<rparr>)"
proof -
  let ?n = "nat (maxR + 1 - retry)"
  let ?req = "post_request c d cid' idx tot"
  have n: "retry + int ?n = maxR + 1" and n0: "?n \<noteq> 0" and n1: "?n - 1 = nat (maxR - retry)"
    using assms(2) by simp_all
  have le: "retry + int ?n \<le> maxR + 1" using n by simp
  have "postChunkWithRetry_loop E c d cid' idx tot maxR retry lastErr s =
        postChunkWithRetry_loop E c d cid' idx tot maxR (maxR + 1)
          (Some (attempt_error idx (fst (Do E ?req (world_after E ?req (nat (maxR - retry)) (world s))))))
          \<lparr>world = world_after E ?req ?n (world s), sent = sent s @ replicate ?n ?req\<rparr>"
    using loop_failures [OF assms(1) le assms(3), of lastErr] n0 unfolding n n1 by simp
  also have "\<dots> = (Some (attempt_error idx (fst (Do E ?req (world_after E ?req (nat (maxR - retry)) (world s))))),
          \<lparr>world = world_after E ?req ?n (world s), sent = sent s @ replicate ?n ?req\<rparr>)"
    by (rule loop_done) simp
  finally show ?thesis .
qed

lemma loop_succeeds_after:
  assumes "NewRequest E ''POST'' (url c) = None"
    and "retry + int n \<le> maxR"
    and "\<forall>k<n. attempt_fails E (post_request c d cid' idx tot)
                  (world_after E (post_request c d cid' idx tot) k (world s))"
    and "\<not> attempt_fails E (post_request c d cid' idx tot)
                  (world_after E (post_request c d cid' idx tot) n (world s))"
  shows "postChunkWithRetry_loop E c d cid' idx tot maxR retry lastErr s =
         (None,
          \<lparr>world = world_after E (post_request c d cid' idx tot) (Suc n) (world s),
           sent = sent s @ replicate (Suc n) (post_request c d cid' idx tot)\<rparr>)"
proof -
  let ?req = "post_request c d cid' idx tot"
  have le: "retry + int n \<le> maxR + 1" using assms(2) by simp
  have w: "snd (Do E ?req (world_after E ?req n w0)) = world_after E ?req (Suc n) w0" for w0
    by (induction n arbitrary: w0) simp_all
  show ?thesis
    unfolding loop_failures [OF assms(1) le assms(3), of lastErr]
    using loop_success_step [OF assms(1) assms(2), where d = d and cid' = cid' and idx = idx and tot = tot
        and s = "\<lparr>world = world_after E ?req n (world s), sent = sent s @ replicate n ?req\<rparr>"]
      assms(4) w [of "world s"]
    by (simp add: replicate_append_same)
qed

lemma Send_upload_end:
  "\<not> idx < length chunks \<Longrightarrow> Send_upload E c cid' chunks idx s = (None, s)"
  by (subst Send_upload.simps) simp

lemma Send_upload_err:
  assumes "idx < length chunks"
    and "postChunkWithRetry E c (chunks ! idx) cid' (int idx) (int (length chunks)) maxRetries s
           = (Some err, s')"
  shows "Send_upload E c cid' chunks idx s = (Some err, s')"
  using assms by (subst Send_upload.simps) (simp add: Let_def)

lemma Send_upload_ok:
  assumes "idx < length chunks"
    and "postChunkWithRetry E c (chunks ! idx) cid' (int idx) (int (length chunks)) maxRetries s
           = (None, s')"
  shows "Send_upload E c cid' chunks idx s = Send_upload E c cid' chunks (idx + 1) s'"
  using assms by (subst Send_upload.simps) (simp add: Let_def)

lemma Send_within_cap:
  assumes "length (Send_body E snap) \<le> bodyCap"
  shows "Send E c snap s =
           Send_upload E c (fst (randomID E 8 s)) (Send_parts E snap) 0 (snd (randomID E 8 s))"
  using assms by (simp add: Send_def Let_def split: prod.splits)

text \<open>Facts about the concrete environments.\<close>

lemma demo_NewRequest [simp]: "NewRequest (demo_env m d) method u = None"
  by (simp add: demo_env_def)

lemma demo_Do [simp]: "Do (demo_env m d) = d"
  by (simp add: demo_env_def)

lemma demo_world_after_status [simp]:
  "world_after (demo_env m (Do_status code)) req k w = w + k"
  by (induction k arbitrary: w) (simp_all add: Do_status_def)

lemma demo_world_after_fail_first [simp]:
  "world_after (demo_env m (Do_fail_first n)) req k w = w + k"
  by (induction k arbitrary: w) (simp_all add: Do_fail_first_def)

lemma demo_fails_status [simp]:
  "attempt_fails (demo_env m (Do_status code)) req w \<longleftrightarrow> \<not> (200 \<le> code \<and> code < 300)"
  by (simp add: attempt_fails_def Do_status_def reply_def)

lemma demo_fails_first [simp]:
  "attempt_fails (demo_env m (Do_fail_first n)) req w \<longleftrightarrow> w < n"
  by (simp add: attempt_fails_def Do_fail_first_def reply_def)

lemma hex_ab: "hex [0xab] = ''ab''"
  by (simp add: hex_def hex_digit_def)

lemma hex_Cons: "hex (x # xs) = hex [x] @ hex xs"
  by (simp add: hex_def)

lemma replicate_8: "replicate 8 x = [x, x, x, x, x, x, x, x]"
  by (simp add: numeral_eq_Suc)

lemma demo_randomID: "randomID (demo_env m d) 8 io0 = (demo_cid, io0)"
  by (simp add: randomID_def demo_env_def io0_def demo_cid_def replicate_8
        hex_Cons [of _ "_ # _"] hex_ab)

lemma Send_chunks_one:
  assumes "0 < length body" and "length body \<le> chunkSize"
  shows "Send_chunks body 0 [] = [body]"
proof -
  have "Send_chunks body chunkSize cs = cs" for cs
    using assms by (subst Send_chunks.simps) simp
  then show ?thesis
    using assms by (subst Send_chunks.simps) (auto simp: slice_def)
qed

lemma demo_small_parts: "Send_parts (demo_env Marshal_small d) snap = [origin_json ''deadbeef'']"
  by (simp add: Send_parts_def Send_body_def mustJSON_def demo_env_def Marshal_small_def
        Send_chunks_one origin_json_def bytes_of_string_def chunkSize_def)

lemma demo_small_body: "length (Send_body (demo_env Marshal_small d) snap) \<le> bodyCap"
  by (simp add: Send_body_def mustJSON_def demo_env_def Marshal_small_def
        origin_json_def bytes_of_string_def bodyCap_def)

lemma demo_700KiB_parts:
  "Send_parts (demo_env Marshal_700KiB d) snap =
     [replicate 307200 0x20, replicate 307200 0x20, replicate 102400 0x20]"
  by (simp add: Send_parts_def Send_body_def mustJSON_def demo_env_def Marshal_700KiB_def
        payload_700KiB_chunks)

lemma demo_700KiB_body: "length (Send_body (demo_env Marshal_700KiB d) snap) \<le> bodyCap"
  by (simp add: Send_body_def mustJSON_def demo_env_def Marshal_700KiB_def payload_700KiB_def
        bodyCap_def)

subsection \<open>Send: what is uploaded, and in which order\<close>

text \<open>What one call of the retry loop adds to the list of requests sent.\<close>

lemma loop_sent:
  "postChunkWithRetry_loop E c d cid' idx tot maxR retry lastErr s = (res, s') \<Longrightarrow>
   \<exists>n. sent s' = sent s @ replicate n (post_request c d cid' idx tot)
       \<and> int n \<le> max 0 (maxR + 1 - retry)
       \<and> (res = None \<longrightarrow> 0 < n \<or> (\<not> retry \<le> maxR \<and> lastErr = None))"
proof (induction E c d cid' idx tot maxR retry lastErr s arbitrary: res s'
       rule: postChunkWithRetry_loop.induct)
  case (1 E c d cid' idx tot maxR retry lastErr s)
  let ?req = "post_request c d cid' idx tot"
  show ?case
  proof (cases "retry \<le> maxR")
    case False
    then have "res = lastErr" "s' = s"
      using "1.prems" by (simp_all add: loop_done)
    then show ?thesis using False by (intro exI [of _ 0]) simp
  next
    case True
    show ?thesis
    proof (cases "NewRequest E ''POST'' (url c)")
      case (Some err)
      then have "res = Some (NewRequest_error err)" "s' = s"
        using "1.prems" True by (subst (asm) postChunkWithRetry_loop.simps, simp)+
      then show ?thesis using True by (intro exI [of _ 0]) simp
    next
      case None
      let ?s1 = "\<lparr>world = snd (Do E ?req (world s)), sent = sent s @ [?req]\<rparr>"
      show ?thesis
      proof (cases "attempt_fails E ?req (world s)")
        case False
        then have "res = None" "s' = ?s1"
          using "1.prems" loop_success_step [OF None True False] by simp_all
        then show ?thesis using True by (intro exI [of _ 1]) simp
      next
        case fails: True
        obtain r w' where do: "Do E ?req (world s) = (r, w')" by (cases "Do E ?req (world s)")
        have cd: "client_Do E ?req s = (r, ?s1)"
          using do by (simp add: client_Do_def)
        have rec: "postChunkWithRetry_loop E c d cid' idx tot maxR (retry + 1)
                 (Some (attempt_error idx (fst (Do E ?req (world s))))) ?s1 = (res, s')"
          using "1.prems" loop_fail_step [OF None True fails] by simp
        have "\<exists>n. sent s' = sent ?s1 @ replicate n ?req
            \<and> int n \<le> max 0 (maxR + 1 - (retry + 1))
            \<and> (res = None \<longrightarrow> 0 < n \<or> (\<not> retry + 1 \<le> maxR
                  \<and> Some (attempt_error idx (fst (Do E ?req (world s)))) = None))"
        proof (cases r)
          case (Inl e)
          have "postChunkWithRetry_loop E c d cid' idx tot maxR (retry + 1)
                 (Some (POST_chunk_error idx e)) ?s1 = (res, s')"
            using rec Inl do by (simp add: attempt_error_def)
          from "1.IH"(1) [OF True None cd [symmetric] Inl this] show ?thesis
            using Inl do by (simp add: attempt_error_def)
        next
          case (Inr resp)
          have nf: "\<not> (200 \<le> StatusCode resp \<and> StatusCode resp < 300)"
            using fails do Inr by (simp add: attempt_fails_def)
          have "postChunkWithRetry_loop E c d cid' idx tot maxR (retry + 1)
                 (Some (chunk_status_error idx (StatusCode resp) (RespBody resp))) ?s1 = (res, s')"
            using rec Inr do by (simp add: attempt_error_def)
          from "1.IH"(2) [OF True None cd [symmetric] Inr nf this] show ?thesis
            using Inr do by (simp add: attempt_error_def)
        qed
        then obtain n where n: "sent s' = sent ?s1 @ replicate n ?req"
            "int n \<le> max 0 (maxR + 1 - (retry + 1))" "res = None \<longrightarrow> 0 < n"
          by auto
        show ?thesis
          using n True by (intro exI [of _ "Suc n"]) (simp add: replicate_app_Cons_same)
      qed
    qed
  qed
qed


lemma postChunkWithRetry_sent:
  assumes "postChunkWithRetry E c d cid' idx tot maxRetries s = (res, s')"
  shows "\<exists>n. sent s' = sent s @ replicate n (post_request c d cid' idx tot) \<and> n \<le> 6
           \<and> (res = None \<longrightarrow> 0 < n)"
proof -
  from loop_sent [OF assms [unfolded postChunkWithRetry_def]]
  obtain n where "sent s' = sent s @ replicate n (post_request c d cid' idx tot)"
    "int n \<le> max 0 (maxRetries + 1 - 0)" "res = None \<longrightarrow> 0 < n \<or> \<not> 0 \<le> maxRetries"
    by auto
  then show ?thesis
    by (intro exI [of _ n]) (simp add: maxRetries_def)
qed

lemma Send_upload_sent:
  assumes "Send_upload E c cid' chunks idx s = (res, s')" and "idx \<le> length chunks"
  shows "\<exists>k ns. sent s' = sent s @ concat (map (\<lambda>i. replicate (ns i)
                      (post_request c (chunks ! i) cid' (int i) (int (length chunks)))) [idx..<k])
           \<and> idx \<le> k \<and> k \<le> length chunks
           \<and> (\<forall>i. idx \<le> i \<and> i < k \<longrightarrow> 0 < ns i \<and> ns i \<le> 6)
           \<and> (res = None \<longrightarrow> k = length chunks)"
  using assms
proof (induction E c cid' chunks idx s arbitrary: res s' rule: Send_upload.induct)
  case (1 E c cid' chunks idx s)
  let ?req = "\<lambda>i. post_request c (chunks ! i) cid' (int i) (int (length chunks))"
  show ?case
  proof (cases "idx < length chunks")
    case False
    then have "res = None" "s' = s" "idx = length chunks"
      using "1.prems" by (simp_all add: Send_upload_end)
    then show ?thesis
      by (intro exI [of _ idx] exI [of _ "\<lambda>i. 1"]) simp
  next
    case True
    obtain r0 s1 where p: "postChunkWithRetry E c (chunks ! idx) cid' (int idx) (int (length chunks))
        maxRetries s = (r0, s1)"
      by (cases "postChunkWithRetry E c (chunks ! idx) cid' (int idx) (int (length chunks)) maxRetries s")
    from postChunkWithRetry_sent [OF p]
    obtain n where n: "sent s1 = sent s @ replicate n (?req idx)" "n \<le> 6" "r0 = None \<longrightarrow> 0 < n"
      by auto
    show ?thesis
    proof (cases r0)
      case (Some err)
      then have rs: "res = Some err" "s' = s1"
        using "1.prems"(1) Send_upload_err [OF True p [unfolded Some]] by simp_all
      show ?thesis
      proof (cases "n = 0")
        case True
        then show ?thesis using rs n \<open>idx < length chunks\<close>
          by (intro exI [of _ idx] exI [of _ "\<lambda>i. 1"]) simp
      next
        case False
        then show ?thesis using rs n \<open>idx < length chunks\<close>
          by (intro exI [of _ "Suc idx"] exI [of _ "\<lambda>i. n"]) simp
      qed
    next
      case None
      then have rec: "Send_upload E c cid' chunks (idx + 1) s1 = (res, s')"
        using "1.prems"(1) Send_upload_ok [OF True p [unfolded None]] by simp
      have "\<exists>k ns. sent s' = sent s1 @ concat (map (\<lambda>i. replicate (ns i) (?req i)) [idx + 1..<k])
           \<and> idx + 1 \<le> k \<and> k \<le> length chunks
           \<and> (\<forall>i. idx + 1 \<le> i \<and> i < k \<longrightarrow> 0 < ns i \<and> ns i \<le> 6)
           \<and> (res = None \<longrightarrow> k = length chunks)"
        using "1.IH" [OF True refl refl p [symmetric] None rec] True by simp
      then obtain k ns where k: "sent s' = sent s1 @ concat (map (\<lambda>i. replicate (ns i) (?req i)) [idx + 1..<k])"
          "idx + 1 \<le> k" "k \<le> length chunks"
          "\<forall>i. idx + 1 \<le> i \<and> i < k \<longrightarrow> 0 < ns i \<and> ns i \<le> 6"
          "res = None \<longrightarrow> k = length chunks"
        by blast
      let ?ns = "ns(idx := n)"
      define A where "A = concat (map (\<lambda>i. replicate (?ns i) (?req i)) [idx + 1..<k])"
      have m: "concat (map (\<lambda>i. replicate (?ns i) (?req i)) [idx + 1..<k])
               = concat (map (\<lambda>i. replicate (ns i) (?req i)) [idx + 1..<k])"
        by (rule arg_cong [where f = concat], rule map_cong) simp_all
      have e0: "sent s' = sent s1 @ A"
        unfolding A_def m by (rule k(1))
      have u: "[idx..<k] = idx # [idx + 1..<k]"
        using k(2) by (simp add: upt_conv_Cons)
      have e2: "concat (map (\<lambda>i. replicate (?ns i) (?req i)) [idx..<k]) = replicate n (?req idx) @ A"
        unfolding u A_def by simp
      have "sent s' = sent s @ concat (map (\<lambda>i. replicate (?ns i) (?req i)) [idx..<k])"
        unfolding e2 using e0 n(1) by simp
      moreover have "\<forall>i. idx \<le> i \<and> i < k \<longrightarrow> 0 < ?ns i \<and> ?ns i \<le> 6"
        using k(4) n None by (auto simp: le_Suc_eq)
      ultimately show ?thesis
        using k(2,3,5) by (intro exI [of _ k] exI [of _ ?ns]) simp
    qed
  qed
qed


lemma randomID_sent: "sent (snd (randomID E n s)) = sent s"
  by (simp add: randomID_def split: prod.splits)

lemma post_first_try:
  assumes "NewRequest E ''POST'' (url c) = None"
    and "\<not> attempt_fails E (post_request c d cid' idx tot) (world s)"
  shows "postChunkWithRetry E c d cid' idx tot maxRetries s =
           (None, \<lparr>world = snd (Do E (post_request c d cid' idx tot) (world s)),
                   sent = sent s @ [post_request c d cid' idx tot]\<rparr>)"
  unfolding postChunkWithRetry_def
  using loop_success_step [OF assms(1) _ assms(2), of 0 maxRetries None]
  by (simp add: maxRetries_def)

lemma demo_upload_all_ok:
  "Send_upload (demo_env m (Do_status 200)) c cid' chunks idx \<lparr>world = w, sent = l\<rparr> =
     (None, \<lparr>world = w + (length chunks - idx),
             sent = l @ map (\<lambda>i. post_request c (chunks ! i) cid' (int i) (int (length chunks)))
                          [idx..<length chunks]\<rparr>)"
proof (induction "length chunks - idx" arbitrary: idx w l)
  case 0
  then show ?case by (simp add: Send_upload_end)
next
  case (Suc n)
  then have lt: "idx < length chunks" and n: "n = length chunks - (idx + 1)"
    by simp_all
  have p: "postChunkWithRetry (demo_env m (Do_status 200)) c (chunks ! idx) cid' (int idx)
             (int (length chunks)) maxRetries \<lparr>world = w, sent = l\<rparr>
           = (None, \<lparr>world = w + 1,
                     sent = l @ [post_request c (chunks ! idx) cid' (int idx) (int (length chunks))]\<rparr>)"
    using post_first_try [where E = "demo_env m (Do_status 200)" and c = c and d = "chunks ! idx"
        and cid' = cid' and idx = "int idx" and tot = "int (length chunks)"
        and s = "\<lparr>world = w, sent = l\<rparr>"]
    by (simp add: Do_status_def)
  show ?case
    unfolding Send_upload_ok [OF lt p] Suc.hyps(1) [OF n]
    using lt by (simp add: upt_conv_Cons)
qed

lemma Send_parts_concat: "concat (Send_parts E snap) = Send_body E snap"
  by (simp add: Send_parts_def Send_chunks_concat)

text \<open>
  C3. For every \<open>Snapshot\<close> that \<open>Send\<close> accepts (its serialised form is within the
  cap), the requests that \<open>Send\<close> issues are, in this order, the POSTs of the parts
  \<open>0, 1, ..., k - 1\<close>, each sent at least once (and at most six times, the retries), where
  \<open>k\<close> is the number of all parts when \<open>Send\<close> succeeds: the parts go up in strictly
  increasing index order. The POST of the part \<open>i\<close> carries the index \<open>i\<close> and has the
  bytes of that part as its body, and the parts concatenate to the serialised snapshot.
  Every one of these POSTs carries the session id and, as \<open>X-Chunk-Total\<close>, the same
  number, the number of chunks, which is not zero. A serialised payload of 700 KiB is cut
  into three parts of 300, 300 and 100 KiB (each then POSTed with its bytes and with
  \<open>X-Chunk-Total\<close> 3, as the instance below shows on a server that accepts every POST).
\<close>

theorem Send_constant_total:
  assumes "length (Send_body E snap) \<le> bodyCap" and "Send E c snap s = (res, s')"
  shows "(\<exists>k ns. sent s' = sent s @ concat (map (\<lambda>i. replicate (ns i)
                      (post_request c (Send_parts E snap ! i) (fst (randomID E 8 s)) (int i)
                         (int (length (Send_parts E snap))))) [0..<k])
            \<and> map (\<lambda>r. (X_Chunk_Idx r, Body r)) (drop (length (sent s)) (sent s'))
                = concat (map (\<lambda>i. replicate (ns i) (Some (int i), Send_parts E snap ! i)) [0..<k])
            \<and> k \<le> length (Send_parts E snap) \<and> (\<forall>i<k. 0 < ns i \<and> ns i \<le> 6)
            \<and> (res = None \<longrightarrow> k = length (Send_parts E snap)))
       \<and> (\<forall>r \<in> set (drop (length (sent s)) (sent s')).
             Method r = ''POST'' \<and> X_Chunk_Total r = Some (int (length (Send_parts E snap)))
             \<and> length (Send_parts E snap) \<noteq> 0
             \<and> X_Chunk_Id r = Some (fst (randomID E 8 s))
             \<and> (\<exists>i<length (Send_parts E snap).
                   X_Chunk_Idx r = Some (int i) \<and> Body r = Send_parts E snap ! i))
       \<and> concat (Send_parts E snap) = Send_body E snap
       \<and> (length (Send_body E snap) = 700 * 1024 \<longrightarrow>
             map length (Send_parts E snap) = [300 * 1024, 300 * 1024, 100 * 1024])"
proof -
  let ?chunks = "Send_parts E snap"
  let ?req = "\<lambda>i. post_request c (?chunks ! i) (fst (randomID E 8 s)) (int i) (int (length ?chunks))"
  have up: "Send_upload E c (fst (randomID E 8 s)) ?chunks 0 (snd (randomID E 8 s)) = (res, s')"
    using assms Send_within_cap [OF assms(1), of c s] by simp
  from Send_upload_sent [OF up]
  obtain k ns where k: "sent s' = sent s @ concat (map (\<lambda>i. replicate (ns i) (?req i)) [0..<k])"
      "k \<le> length ?chunks" "\<forall>i. 0 \<le> i \<and> i < k \<longrightarrow> 0 < ns i \<and> ns i \<le> 6"
      "res = None \<longrightarrow> k = length ?chunks"
    unfolding randomID_sent by auto
  have pr: "map (\<lambda>r. (X_Chunk_Idx r, Body r)) (concat (map (\<lambda>i. replicate (ns i) (?req i)) js))
            = concat (map (\<lambda>i. replicate (ns i) (Some (int i), ?chunks ! i)) js)" for js
    by (induction js) (simp_all add: post_request_def)
  have d: "drop (length (sent s)) (sent s') = concat (map (\<lambda>i. replicate (ns i) (?req i)) [0..<k])"
    using k(1) by simp
  have 1: "\<exists>k ns. sent s' = sent s @ concat (map (\<lambda>i. replicate (ns i) (?req i)) [0..<k])
            \<and> map (\<lambda>r. (X_Chunk_Idx r, Body r)) (drop (length (sent s)) (sent s'))
                = concat (map (\<lambda>i. replicate (ns i) (Some (int i), ?chunks ! i)) [0..<k])
            \<and> k \<le> length ?chunks \<and> (\<forall>i<k. 0 < ns i \<and> ns i \<le> 6)
            \<and> (res = None \<longrightarrow> k = length ?chunks)"
    using k pr [of "[0..<k]"] unfolding d by (intro exI [of _ k] exI [of _ ns]) simp
  have 2: "Method r = ''POST'' \<and> X_Chunk_Total r = Some (int (length ?chunks)) \<and> length ?chunks \<noteq> 0
           \<and> X_Chunk_Id r = Some (fst (randomID E 8 s))
           \<and> (\<exists>i<length ?chunks. X_Chunk_Idx r = Some (int i) \<and> Body r = ?chunks ! i)"
    if "r \<in> set (drop (length (sent s)) (sent s'))" for r
  proof -
    have "r \<in> set (concat (map (\<lambda>i. replicate (ns i) (?req i)) [0..<k]))"
      using that d by simp
    then obtain i where i: "i < k" "r = ?req i"
      by auto
    then have "i < length ?chunks" using k(2) by simp
    then show ?thesis
      using i by (auto simp: post_request_def)
  qed
  have 3: "map length ?chunks = [300 * 1024, 300 * 1024, 100 * 1024]"
    if "length (Send_body E snap) = 700 * 1024"
    using that by (simp add: Send_parts_def Send_chunks_700KiB)
  show ?thesis
    using 1 2 3 Send_parts_concat [of E snap] by blast
qed

theorem Send_constant_total_witness:
  "length (Send_body (demo_env Marshal_700KiB (Do_status 200)) (origin_snapshot ''deadbeef'')) = 700 * 1024
   \<and> length (Send_body (demo_env Marshal_700KiB (Do_status 200)) (origin_snapshot ''deadbeef'')) \<le> bodyCap
   \<and> Send (demo_env Marshal_700KiB (Do_status 200)) demo_client (origin_snapshot ''deadbeef'') io0
       = (None, \<lparr>world = 3, sent = [post_700KiB 0, post_700KiB 1, post_700KiB 2]\<rparr>)
   \<and> map length (Send_parts (demo_env Marshal_700KiB (Do_status 200)) (origin_snapshot ''deadbeef''))
       = [300 * 1024, 300 * 1024, 100 * 1024]
   \<and> map X_Chunk_Total [post_700KiB 0, post_700KiB 1, post_700KiB 2] = [Some 3, Some 3, Some 3]
   \<and> map X_Chunk_Idx [post_700KiB 0, post_700KiB 1, post_700KiB 2] = [Some 0, Some 1, Some 2]
   \<and> map Method [post_700KiB 0, post_700KiB 1, post_700KiB 2] = [''POST'', ''POST'', ''POST'']
   \<and> map Body [post_700KiB 0, post_700KiB 1, post_700KiB 2]
       = Send_parts (demo_env Marshal_700KiB (Do_status 200)) (origin_snapshot ''deadbeef'')
   \<and> map (length \<circ> Body) [post_700KiB 0, post_700KiB 1, post_700KiB 2]
       = [300 * 1024, 300 * 1024, 100 * 1024]
   \<and> concat (map Body [post_700KiB 0, post_700KiB 1, post_700KiB 2])
       = Send_body (demo_env Marshal_700KiB (Do_status 200)) (origin_snapshot ''deadbeef'')"
proof -
  let ?E = "demo_env Marshal_700KiB (Do_status 200)"
  let ?snap = "origin_snapshot ''deadbeef''"
  let ?chunks = "[replicate 307200 (0x20 :: byte), replicate 307200 0x20, replicate 102400 0x20]"
  let ?sent = "[post_700KiB 0, post_700KiB 1, post_700KiB 2]"
  have b: "length (Send_body ?E ?snap) = 700 * 1024"
    by (simp add: Send_body_def mustJSON_def demo_env_def Marshal_700KiB_def payload_700KiB_def)
  have cap: "length (Send_body ?E ?snap) \<le> bodyCap"
    by (rule demo_700KiB_body)
  have upt3: "[0..<3] = [0, 1, 2]"
    by (simp add: upt_conv_Cons numeral_3_eq_3)
  have u: "Send_upload ?E demo_client demo_cid ?chunks 0 io0 = (None, \<lparr>world = 3, sent = ?sent\<rparr>)"
    unfolding io0_def demo_upload_all_ok by (simp add: upt3 post_700KiB_def)
  have s: "Send ?E demo_client ?snap io0 = (None, \<lparr>world = 3, sent = ?sent\<rparr>)"
    using u by (simp add: Send_within_cap cap demo_randomID demo_700KiB_parts)
  from Send_constant_total [OF cap s]
  have t: "\<forall>r \<in> set (drop (length (sent io0)) (sent \<lparr>world = 3 :: nat, sent = ?sent\<rparr>)).
             Method r = ''POST'' \<and> X_Chunk_Total r = Some (int (length (Send_parts ?E ?snap)))
             \<and> length (Send_parts ?E ?snap) \<noteq> 0
             \<and> X_Chunk_Id r = Some (fst (randomID ?E 8 io0))
             \<and> (\<exists>i<length (Send_parts ?E ?snap).
                   X_Chunk_Idx r = Some (int i) \<and> Body r = Send_parts ?E ?snap ! i)"
    and l: "map length (Send_parts ?E ?snap) = [300 * 1024, 300 * 1024, 100 * 1024]"
    and cc: "concat (Send_parts ?E ?snap) = Send_body ?E ?snap"
    using b by blast+
  have tot: "map X_Chunk_Total ?sent = [Some 3, Some 3, Some 3]"
    and meth: "map Method ?sent = [''POST'', ''POST'', ''POST'']"
    using t by (simp_all add: io0_def demo_700KiB_parts)
  have idx: "map X_Chunk_Idx ?sent = [Some 0, Some 1, Some 2]"
    and bod: "map Body ?sent = Send_parts ?E ?snap"
    by (simp_all add: demo_700KiB_parts post_700KiB_def post_request_def)
  have len: "map (length \<circ> Body) ?sent = [300 * 1024, 300 * 1024, 100 * 1024]"
    using bod l by (simp only: map_map [symmetric]) 
  show ?thesis
    using b cap s l tot meth idx bod len cc by simp
qed

subsection \<open>Send: a chunk that keeps failing\<close>

lemma reaches_upload:
  assumes "Send_upload_reaches E c cid' chunks idx s0 = Some s" and "idx \<le> length chunks"
  shows "Send_upload E c cid' chunks 0 s0 = Send_upload E c cid' chunks idx s"
  using assms
proof (induction idx arbitrary: s)
  case 0
  then show ?case by simp
next
  case (Suc j)
  from Suc.prems(1) obtain sj where sj: "Send_upload_reaches E c cid' chunks j s0 = Some sj"
    and p: "postChunkWithRetry E c (chunks ! j) cid' (int j) (int (length chunks)) maxRetries sj
              = (None, s)"
    by (auto split: option.splits prod.splits)
  have j: "j < length chunks" using Suc.prems(2) by simp
  have "Send_upload E c cid' chunks 0 s0 = Send_upload E c cid' chunks j sj"
    using Suc.IH [OF sj] j by simp
  also have "\<dots> = Send_upload E c cid' chunks (j + 1) s"
    by (rule Send_upload_ok [OF j p])
  finally show ?case by simp
qed

lemma reaches_sent:
  assumes "Send_upload_reaches E c cid' chunks idx s0 = Some s"
  shows "\<exists>ns. sent s = sent s0 @ concat (map (\<lambda>i. replicate (ns i)
                    (post_request c (chunks ! i) cid' (int i) (int (length chunks)))) [0..<idx])
          \<and> (\<forall>i<idx. 0 < ns i \<and> ns i \<le> 6)"
  using assms
proof (induction idx arbitrary: s)
  case 0
  then show ?case by simp
next
  case (Suc j)
  let ?req = "\<lambda>i. post_request c (chunks ! i) cid' (int i) (int (length chunks))"
  from Suc.prems obtain sj where sj: "Send_upload_reaches E c cid' chunks j s0 = Some sj"
    and p: "postChunkWithRetry E c (chunks ! j) cid' (int j) (int (length chunks)) maxRetries sj
              = (None, s)"
    by (auto split: option.splits prod.splits)
  from Suc.IH [OF sj] obtain ns where ns:
    "sent sj = sent s0 @ concat (map (\<lambda>i. replicate (ns i) (?req i)) [0..<j])"
    "\<forall>i<j. 0 < ns i \<and> ns i \<le> 6"
    by blast
  from postChunkWithRetry_sent [OF p] obtain n where n:
    "sent s = sent sj @ replicate n (?req j)" "n \<le> 6" "0 < n"
    by auto
  let ?ns = "ns(j := n)"
  have m: "concat (map (\<lambda>i. replicate (?ns i) (?req i)) [0..<j])
           = concat (map (\<lambda>i. replicate (ns i) (?req i)) [0..<j])"
    by (rule arg_cong [where f = concat], rule map_cong) simp_all
  have "sent s = sent s0 @ concat (map (\<lambda>i. replicate (?ns i) (?req i)) [0..<Suc j])"
    using ns(1) n(1) m by simp
  moreover have "\<forall>i<Suc j. 0 < ?ns i \<and> ?ns i \<le> 6"
    using ns(2) n(2,3) by (auto simp: less_Suc_eq)
  ultimately show ?case by blast
qed

lemma demo_world_after_reject [simp]:
  "world_after (demo_env m (Do_reject_idx j)) req k w = w + k"
  by (induction k arbitrary: w) (simp_all add: Do_reject_idx_def)

lemma demo_fails_reject [simp]:
  "attempt_fails (demo_env m (Do_reject_idx j)) req w \<longleftrightarrow> X_Chunk_Idx req = Some j"
  by (simp add: attempt_fails_def Do_reject_idx_def reply_def)

text \<open>
  C4, as stated, fails. The loop of \<open>postChunkWithRetry\<close> runs for
  \<open>retry = 0, ..., maxRetries\<close> with \<open>maxRetries = 5\<close>: the first attempt and five
  retries. Against a server that fails five requests in a row and then answers 200, the
  sixth attempt is made and \<open>Send\<close> returns nil: five failures do not exhaust the
  retries. Against a server that always answers 500, \<open>Send\<close> makes six attempts, not
  five, before it gives up.
\<close>

theorem five_failures_counterexample:
  "Send (demo_env Marshal_small (Do_fail_first 5)) demo_client (origin_snapshot ''deadbeef'') io0
     = (None, \<lparr>world = 6, sent = replicate 6 post_small\<rparr>)
   \<and> Send (demo_env Marshal_small (Do_status 500)) demo_client (origin_snapshot ''deadbeef'') io0
     = (Some (chunk_status_error 0 500 []), \<lparr>world = 6, sent = replicate 6 post_small\<rparr>)"
proof -
  let ?snap = "origin_snapshot ''deadbeef''"
  let ?b = "origin_json ''deadbeef''"
  have "postChunkWithRetry (demo_env Marshal_small (Do_fail_first 5)) demo_client ([?b] ! 0) demo_cid
          (int 0) (int (length [?b])) maxRetries io0
        = (None, \<lparr>world = 6, sent = replicate 6 post_small\<rparr>)"
    unfolding postChunkWithRetry_def
    using loop_succeeds_after [where E = "demo_env Marshal_small (Do_fail_first 5)" and c = demo_client
        and d = "[?b] ! 0" and cid' = demo_cid and idx = "int 0" and tot = "int (length [?b])"
        and maxR = maxRetries and retry = 0 and n = 5 and s = io0 and lastErr = None]
    by (simp add: maxRetries_def io0_def post_small_def)
  then have 1: "Send_upload (demo_env Marshal_small (Do_fail_first 5)) demo_client demo_cid [?b] 0 io0
        = (None, \<lparr>world = 6, sent = replicate 6 post_small\<rparr>)"
    using Send_upload_ok [where chunks = "[?b]" and idx = 0] by (simp add: Send_upload_end)
  have "postChunkWithRetry (demo_env Marshal_small (Do_status 500)) demo_client ([?b] ! 0) demo_cid
          (int 0) (int (length [?b])) maxRetries io0
        = (Some (chunk_status_error 0 500 []), \<lparr>world = 6, sent = replicate 6 post_small\<rparr>)"
    unfolding postChunkWithRetry_def
    using loop_exhausts [where E = "demo_env Marshal_small (Do_status 500)" and c = demo_client
        and d = "[?b] ! 0" and cid' = demo_cid and idx = "int 0" and tot = "int (length [?b])"
        and maxR = maxRetries and retry = 0 and s = io0 and lastErr = None]
    by (simp add: maxRetries_def io0_def post_small_def attempt_error_def Do_status_def reply_def)
  then have 2: "Send_upload (demo_env Marshal_small (Do_status 500)) demo_client demo_cid [?b] 0 io0
        = (Some (chunk_status_error 0 500 []), \<lparr>world = 6, sent = replicate 6 post_small\<rparr>)"
    using Send_upload_err [where chunks = "[?b]" and idx = 0] by simp
  show ?thesis
    using 1 2 by (simp add: Send_within_cap demo_small_body demo_randomID demo_small_parts)
qed

text \<open>
  C4, amended. For a chunk whose six POST attempts all fail (a transport error or a status
  outside 200..299), \<open>postChunkWithRetry\<close> makes exactly six attempts, the first and
  five retries, and returns the error of the last of them; the upload loop of \<open>Send\<close>
  returns that error at once. So for every chunk that the upload loop of \<open>Send\<close> reaches
  (the chunks before it have gone through) and whose six attempts fail, \<open>Send\<close> returns
  the error of the sixth attempt, and the requests \<open>Send\<close> has issued are those of the
  chunks before it, in order, followed by the six of this chunk: no later chunk is
  attempted.
\<close>

theorem postChunk_exhausts:
  assumes "NewRequest E ''POST'' (url c) = None"
    and "idx < length chunks"
    and "req = post_request c (chunks ! idx) cid' (int idx) (int (length chunks))"
    and "\<forall>k<6. attempt_fails E req (world_after E req k (world s))"
  shows "Method req = ''POST'' \<and> X_Chunk_Idx req = Some (int idx) \<and> Body req = chunks ! idx
       \<and> postChunkWithRetry E c (chunks ! idx) cid' (int idx) (int (length chunks)) maxRetries s
           = (Some (attempt_error (int idx) (fst (Do E req (world_after E req 5 (world s))))),
              \<lparr>world = world_after E req 6 (world s), sent = sent s @ replicate 6 req\<rparr>)
       \<and> Send_upload E c cid' chunks idx s
           = (Some (attempt_error (int idx) (fst (Do E req (world_after E req 5 (world s))))),
              \<lparr>world = world_after E req 6 (world s), sent = sent s @ replicate 6 req\<rparr>)
       \<and> (chunks = Send_parts E snap \<and> length (Send_body E snap) \<le> bodyCap
            \<and> randomID E 8 s0 = (cid', s1)
            \<and> Send_upload_reaches E c cid' chunks idx s1 = Some s
          \<longrightarrow> Send E c snap s0
                = (Some (attempt_error (int idx) (fst (Do E req (world_after E req 5 (world s))))),
                   \<lparr>world = world_after E req 6 (world s), sent = sent s @ replicate 6 req\<rparr>)
              \<and> (\<exists>ns. sent s @ replicate 6 req
                       = sent s0 @ concat (map (\<lambda>i. replicate (ns i)
                            (post_request c (chunks ! i) cid' (int i) (int (length chunks))))
                            [0..<idx]) @ replicate 6 req
                     \<and> (\<forall>i<idx. 0 < ns i \<and> ns i \<le> 6)))"
proof -
  have f: "\<forall>k<nat (maxRetries + 1 - 0). attempt_fails E req (world_after E req k (world s))"
    using assms(4) by (simp add: maxRetries_def)
  have p: "postChunkWithRetry E c (chunks ! idx) cid' (int idx) (int (length chunks)) maxRetries s
           = (Some (attempt_error (int idx) (fst (Do E req (world_after E req 5 (world s))))),
              \<lparr>world = world_after E req 6 (world s), sent = sent s @ replicate 6 req\<rparr>)"
    unfolding postChunkWithRetry_def
    using loop_exhausts [OF assms(1) _ f [unfolded assms(3)], of None]
    by (simp add: maxRetries_def assms(3))
  have u: "Send_upload E c cid' chunks idx s
           = (Some (attempt_error (int idx) (fst (Do E req (world_after E req 5 (world s))))),
              \<lparr>world = world_after E req 6 (world s), sent = sent s @ replicate 6 req\<rparr>)"
    by (rule Send_upload_err [OF assms(2) p])
  have 3: "Send E c snap s0
                = (Some (attempt_error (int idx) (fst (Do E req (world_after E req 5 (world s))))),
                   \<lparr>world = world_after E req 6 (world s), sent = sent s @ replicate 6 req\<rparr>)
              \<and> (\<exists>ns. sent s @ replicate 6 req
                       = sent s0 @ concat (map (\<lambda>i. replicate (ns i)
                            (post_request c (chunks ! i) cid' (int i) (int (length chunks))))
                            [0..<idx]) @ replicate 6 req
                     \<and> (\<forall>i<idx. 0 < ns i \<and> ns i \<le> 6))"
    if h: "chunks = Send_parts E snap" "length (Send_body E snap) \<le> bodyCap"
       "randomID E 8 s0 = (cid', s1)" "Send_upload_reaches E c cid' chunks idx s1 = Some s"
  proof -
    have "Send E c snap s0 = Send_upload E c cid' chunks 0 s1"
      using Send_within_cap [OF h(2), of c s0] h(1,3) by simp
    also have "\<dots> = Send_upload E c cid' chunks idx s"
      using reaches_upload [OF h(4)] assms(2) by simp
    finally have a: "Send E c snap s0
        = (Some (attempt_error (int idx) (fst (Do E req (world_after E req 5 (world s))))),
           \<lparr>world = world_after E req 6 (world s), sent = sent s @ replicate 6 req\<rparr>)"
      using u by simp
    have "sent s1 = sent s0"
      using randomID_sent [of E 8 s0] h(3) by simp
    then have b: "\<exists>ns. sent s @ replicate 6 req
                       = sent s0 @ concat (map (\<lambda>i. replicate (ns i)
                            (post_request c (chunks ! i) cid' (int i) (int (length chunks))))
                            [0..<idx]) @ replicate 6 req
                     \<and> (\<forall>i<idx. 0 < ns i \<and> ns i \<le> 6)"
      using reaches_sent [OF h(4)] by auto
    show ?thesis using a b by (rule conjI)
  qed
  have r: "Method req = ''POST'' \<and> X_Chunk_Idx req = Some (int idx) \<and> Body req = chunks ! idx"
    by (simp add: assms(3) post_request_def)
  show ?thesis
    using r p u 3 by blast
qed

theorem postChunk_exhausts_witness:
  "NewRequest (demo_env Marshal_700KiB (Do_reject_idx 1)) ''POST'' (url demo_client) = None
   \<and> length (Send_parts (demo_env Marshal_700KiB (Do_reject_idx 1)) (origin_snapshot ''deadbeef'')) = 3
   \<and> Send_upload_reaches (demo_env Marshal_700KiB (Do_reject_idx 1)) demo_client demo_cid
        (Send_parts (demo_env Marshal_700KiB (Do_reject_idx 1)) (origin_snapshot ''deadbeef'')) 1 io0
       = Some \<lparr>world = 1, sent = [post_700KiB 0]\<rparr>
   \<and> attempt_fails (demo_env Marshal_700KiB (Do_reject_idx 1)) (post_700KiB 1) 1
   \<and> attempt_fails (demo_env Marshal_700KiB (Do_reject_idx 1)) (post_700KiB 1) 6
   \<and> Send (demo_env Marshal_700KiB (Do_reject_idx 1)) demo_client (origin_snapshot ''deadbeef'') io0
       = (Some (chunk_status_error 1 500 []),
          \<lparr>world = 7, sent = post_700KiB 0 # replicate 6 (post_700KiB 1)\<rparr>)
   \<and> post_700KiB 2 \<notin> set (post_700KiB 0 # replicate 6 (post_700KiB 1))
   \<and> X_Chunk_Idx (post_700KiB 1) = Some 1
   \<and> Body (post_700KiB 1) = replicate 307200 0x20"
proof -
  let ?E = "demo_env Marshal_700KiB (Do_reject_idx 1)"
  let ?snap = "origin_snapshot ''deadbeef''"
  let ?chunks = "Send_parts ?E ?snap"
  let ?s = "\<lparr>world = 1 :: nat, sent = [post_700KiB 0]\<rparr>"
  have c: "?chunks = [replicate 307200 0x20, replicate 307200 0x20, replicate 102400 0x20]"
    by (rule demo_700KiB_parts)
  have i0: "X_Chunk_Idx (post_700KiB 0) = Some 0" and i1: "X_Chunk_Idx (post_700KiB 1) = Some 1"
    and i2: "X_Chunk_Idx (post_700KiB 2) = Some 2"
    by (simp_all add: post_700KiB_def post_request_def)
  have p0: "post_700KiB 0 = post_request demo_client (?chunks ! 0) demo_cid (int 0) (int (length ?chunks))"
    by (simp add: c post_700KiB_def)
  have "postChunkWithRetry ?E demo_client (?chunks ! 0) demo_cid (int 0) (int (length ?chunks))
          maxRetries io0 = (None, ?s)"
    using post_first_try [where E = ?E and c = demo_client and d = "?chunks ! 0" and cid' = demo_cid
        and idx = "int 0" and tot = "int (length ?chunks)" and s = io0]
    unfolding p0 [symmetric] by (simp add: i0 io0_def Do_reject_idx_def)
  then have r: "Send_upload_reaches ?E demo_client demo_cid ?chunks 1 io0 = Some ?s"
    by (simp add: One_nat_def)
  have 1: "NewRequest ?E ''POST'' (url demo_client) = None" by simp
  have 2: "1 < length ?chunks" by (simp add: c)
  have 3: "post_700KiB 1 = post_request demo_client (?chunks ! 1) demo_cid (int 1) (int (length ?chunks))"
    by (simp add: c post_700KiB_def)
  have 4: "\<forall>k<6. attempt_fails ?E (post_700KiB 1) (world_after ?E (post_700KiB 1) k (world ?s))"
    using i1 by simp
  have 5: "?chunks = Send_parts ?E ?snap \<and> length (Send_body ?E ?snap) \<le> bodyCap
           \<and> randomID ?E 8 io0 = (demo_cid, io0)
           \<and> Send_upload_reaches ?E demo_client demo_cid ?chunks 1 io0 = Some ?s"
    using r by (simp add: demo_700KiB_body demo_randomID)
  have "Send ?E demo_client ?snap io0
       = (Some (attempt_error (int 1) (fst (Do ?E (post_700KiB 1) (world_after ?E (post_700KiB 1) 5 (world ?s))))),
          \<lparr>world = world_after ?E (post_700KiB 1) 6 (world ?s), sent = sent ?s @ replicate 6 (post_700KiB 1)\<rparr>)"
    using postChunk_exhausts [OF 1 2 3 4, of ?snap io0 io0] 5 by blast
  then have s: "Send ?E demo_client ?snap io0
       = (Some (chunk_status_error 1 500 []),
          \<lparr>world = 7, sent = post_700KiB 0 # replicate 6 (post_700KiB 1)\<rparr>)"
    using i1 by (simp add: attempt_error_def Do_reject_idx_def reply_def)
  have n: "post_700KiB 2 \<notin> set (post_700KiB 0 # replicate 6 (post_700KiB 1))"
    using i0 i1 i2 by auto
  have b1: "Body (post_700KiB 1) = replicate 307200 0x20"
    by (simp add: post_700KiB_def post_request_def)
  show ?thesis
    using c r s n i1 b1 by simp
qed

subsection \<open>Poll\<close>

lemma Poll_complete_out:
  assumes "Poll_complete E c cur out0 = (cur', out')"
  shows "out' = out0 \<or>
         (\<exists>snap. out' = out0 @ [snap] \<and> assemble (Unmarshal E) cur = Some snap
                 \<and> Origin snap \<noteq> shared_id c)"
  using assms by (auto simp: Poll_complete_def split: if_splits option.splits)

lemma Poll_body_out:
  assumes "Poll_body E c meta st = Some st'"
  shows "out st' = out st \<or>
         (\<exists>snap cur. out st' = out st @ [snap] \<and> assemble (Unmarshal E) cur = Some snap
                 \<and> Origin snap \<noteq> shared_id c)"
proof -
  let ?cur0 = "if cid_resp meta \<noteq> [] \<and> cid_resp meta \<noteq> cid (current st)
               then \<lparr>cid = cid_resp meta, total = total_resp meta, parts = fmempty\<rparr>
               else current st"
  show ?thesis
  proof (cases "cid ?cur0 \<noteq> []")
    case False
    then have "st' = \<lparr>current = ?cur0, out = out st, io = io st\<rparr>"
      using assms by (simp add: Poll_body_def Let_def)
    then show ?thesis by simp
  next
    case True
    then obtain cur s' where f: "Poll_fetch E c (have_resp meta) ?cur0 (io st) = Some (cur, s')"
      using assms by (auto simp: Poll_body_def Let_def split: option.splits)
    obtain cur' out' where pc: "Poll_complete E c cur (out st) = (cur', out')"
      by (cases "Poll_complete E c cur (out st)")
    have "st' = \<lparr>current = cur', out = out', io = s'\<rparr>"
      using assms True f pc by (simp add: Poll_body_def Let_def)
    then show ?thesis
      using Poll_complete_out [OF pc] by auto
  qed
qed

lemma assemble_decoded:
  "assemble u cur = Some snap \<Longrightarrow> \<exists>b. u b = Some snap"
  by (auto simp: assemble_def split: if_splits)

lemma Poll_reach_any_out:
  assumes "Poll_reach_any E c w st"
  shows "\<forall>snap \<in> set (out st). Origin snap \<noteq> shared_id c \<and> (\<exists>b. Unmarshal E b = Some snap)"
  using assms
proof (induction rule: Poll_reach_any.induct)
  case start_any
  show ?case by (simp add: Poll_init_def)
next
  case (error_any st s')
  then show ?case by simp
next
  case (body_any st s' meta st')
  from Poll_body_out [OF body_any.hyps(3)] show ?case
    using body_any.IH assemble_decoded by fastforce
qed

lemma discover_sent:
  assumes "discover E c s = Some (r, s')"
  shows "sent s' = sent s @ [discover_request c]"
  using assms
  by (auto simp: discover_def client_Do_def split: option.splits prod.splits sum.splits)

lemma Poll_reach_sub:
  assumes "Poll_reach E c w st"
  shows "Poll_reach_any E c w st"
  using assms
proof (induction rule: Poll_reach.induct)
  case start
  show ?case by (rule Poll_reach_any.start_any)
next
  case (iter st st')
  obtain r s' where d: "discover E c (io st) = Some (r, s')"
    using iter.hyps(3) by (auto simp: Poll_iter_def split: option.splits)
  note s = discover_sent [OF d]
  show ?case
  proof (cases r)
    case (Inl err)
    then have "st' = st\<lparr>io := s'\<rparr>"
      using iter.hyps(3) d by (simp add: Poll_iter_def)
    then show ?thesis
      using Poll_reach_any.error_any [OF iter.IH s] by simp
  next
    case (Inr meta)
    then have "Poll_body E c meta (st\<lparr>io := s'\<rparr>) = Some st'"
      using iter.hyps(3) d by (simp add: Poll_iter_def)
    then show ?thesis
      using Poll_reach_any.body_any [OF iter.IH s] by blast
  qed
qed

text \<open>The loop against the server \<open>Do_server doc\<close>.\<close>

lemma length_origin_json [simp]: "length (origin_json o') = 13 + length o'"
  by (simp add: origin_json_def bytes_of_string_def)

lemma demo_fetch:
  assumes "i = 0 \<or> i = 1" and "length doc \<le> 1000"
  shows "fetchChunk (demo_env m (Do_server doc)) demo_client ''abc'' i \<lparr>world = w, sent = l\<rparr>
         = Some (Inr (if i = 0 then take 9 doc else drop 9 doc),
                 \<lparr>world = w + 1, sent = l @ [fetch_request demo_client ''abc'' i]\<rparr>)"
  using assms
  by (auto simp: fetchChunk_def client_Do_def Do_server_def reply_def fetch_request_def
        chunkSize_def)

lemma demo_Poll_fetch:
  assumes "length doc \<le> 1000"
  shows "Poll_fetch (demo_env m (Do_server doc)) demo_client [0, 1]
           \<lparr>cid = ''abc'', total = 2, parts = fmempty\<rparr>
           \<lparr>world = 1, sent = [discover_request demo_client]\<rparr>
         = Some (state_fetched doc, after_fetch)"
  using demo_fetch [OF _ assms, of 0 m 1 "[discover_request demo_client]"]
    demo_fetch [OF _ assms, of 1 m 2 "[discover_request demo_client, fetch_request demo_client ''abc'' 0]"]
  by (simp add: state_fetched_def after_fetch_def numeral_2_eq_2 numeral_3_eq_3)

lemma demo_fetched_complete: "len_parts (state_fetched doc) = 2"
proof -
  have "fmdom' (parts (state_fetched doc)) = {0, 1}"
    by (auto simp: state_fetched_def)
  then show ?thesis by (simp add: len_parts_card)
qed

lemma demo_fetched_full:
  "assemble_loop (parts (state_fetched doc)) 0 (total (state_fetched doc)) [] = doc"
proof -
  have u: "[0..(1::int)] = [0, 1]" by (simp add: upto_rec1)
  show ?thesis
    by (simp add: assemble_loop_closed state_fetched_def u part_at_def)
qed

lemma demo_assemble:
  "assemble demo_Unmarshal (state_fetched doc) = demo_Unmarshal doc"
  using demo_fetched_complete [of doc] demo_fetched_full [of doc]
  by (simp add: assemble_def) (simp add: state_fetched_def)

lemma demo_Unmarshal_other: "demo_Unmarshal (origin_json ''other'') = Some (origin_snapshot ''other'')"
  by (simp add: demo_Unmarshal_def)

lemma demo_Unmarshal_self:
  "demo_Unmarshal (origin_json ''deadbeef'') = Some (origin_snapshot ''deadbeef'')"
proof -
  have "length (origin_json ''deadbeef'') \<noteq> length (origin_json ''other'')"
    by simp
  then have "origin_json ''deadbeef'' \<noteq> origin_json ''other''"
    by metis
  then show ?thesis by (simp add: demo_Unmarshal_def)
qed

lemma demo_Unmarshal_env [simp]: "Unmarshal (demo_env m d) = demo_Unmarshal"
  by (simp add: demo_env_def)

lemma demo_Poll_complete_other:
  "Poll_complete (demo_env m d) demo_client (state_fetched (origin_json ''other'')) out0
   = (state_zero, out0 @ [origin_snapshot ''other''])"
  using demo_fetched_complete [of "origin_json ''other''"]
  by (simp add: Poll_complete_def demo_assemble demo_Unmarshal_other)
     (simp add: state_fetched_def origin_snapshot_def demo_client_def)

lemma demo_Poll_complete_self:
  "Poll_complete (demo_env m d) demo_client (state_fetched (origin_json ''deadbeef'')) out0
   = (state_zero, out0)"
  using demo_fetched_complete [of "origin_json ''deadbeef''"]
  by (simp add: Poll_complete_def demo_assemble demo_Unmarshal_self)
     (simp add: state_fetched_def origin_snapshot_def demo_client_def)

lemma demo_Poll_body:
  assumes "length doc \<le> 1000"
  shows "Poll_body (demo_env m (Do_server doc)) demo_client meta_abc after_discover
         = (case Poll_complete (demo_env m (Do_server doc)) demo_client (state_fetched doc) [] of
              (cur', out') \<Rightarrow> Some \<lparr>current = cur', out = out', io = after_fetch\<rparr>)"
  using demo_Poll_fetch [OF assms, of m]
  by (simp add: Poll_body_def meta_abc_def after_discover_def state_zero_def)

lemma demo_Poll_body_other:
  "Poll_body (demo_env m (Do_server (origin_json ''other''))) demo_client meta_abc after_discover
   = Some \<lparr>current = state_zero, out = [origin_snapshot ''other''], io = after_fetch\<rparr>"
  by (simp add: demo_Poll_body demo_Poll_complete_other)

lemma demo_Poll_body_self:
  "Poll_body (demo_env m (Do_server (origin_json ''deadbeef''))) demo_client meta_abc after_discover
   = Some \<lparr>current = state_zero, out = [], io = after_fetch\<rparr>"
  by (simp add: demo_Poll_body demo_Poll_complete_self)

lemma demo_reach_any:
  "Poll_reach_any (demo_env m (Do_server (origin_json ''other''))) demo_client 0
     \<lparr>current = state_zero, out = [origin_snapshot ''other''], io = after_fetch\<rparr>"
proof -
  let ?E = "demo_env m (Do_server (origin_json ''other''))"
  have a: "(Poll_init 0)\<lparr>io := io after_discover\<rparr> = after_discover"
    by (simp add: Poll_init_def after_discover_def)
  have s: "sent (io after_discover) = sent (io (Poll_init (0::nat))) @ [discover_request demo_client]"
    by (simp add: Poll_init_def after_discover_def)
  show ?thesis
    using Poll_reach_any.body_any [OF Poll_reach_any.start_any s, of ?E meta_abc]
      demo_Poll_body_other [of m] unfolding a by simp
qed

text \<open>
  C6. A \<open>Snapshot\<close> whose origin equals the local client id is never written to the
  output channel: whatever the assemble-if-complete block of the loop appends to the
  channel has an origin different from \<open>c.id\<close>, and so in every state the loop can
  reach, whatever \<open>discover\<close> returns (\<open>Poll_reach_any\<close>) and in particular with
  \<open>discover\<close> as it is written (\<open>Poll_reach\<close>), every snapshot on the channel has an
  origin different from \<open>c.id\<close>. The instance below runs the block on a complete session whose
  document has the local origin (nothing is appended) and on one with a foreign origin
  (the snapshot is appended).
\<close>

theorem Poll_filters_self:
  "(Poll_complete E c cur out0 = (cur', out') \<longrightarrow>
      (\<exists>new. out' = out0 @ new \<and> (\<forall>snap \<in> set new. Origin snap \<noteq> shared_id c)))
   \<and> (Poll_reach_any E c w st \<longrightarrow> (\<forall>snap \<in> set (out st). Origin snap \<noteq> shared_id c))
   \<and> (Poll_reach E c w st \<longrightarrow> (\<forall>snap \<in> set (out st). Origin snap \<noteq> shared_id c))"
proof (intro conjI impI)
  assume "Poll_complete E c cur out0 = (cur', out')"
  from Poll_complete_out [OF this]
  show "\<exists>new. out' = out0 @ new \<and> (\<forall>snap \<in> set new. Origin snap \<noteq> shared_id c)"
  proof
    assume "out' = out0"
    then show ?thesis by (intro exI [of _ "[]"]) simp
  next
    assume "\<exists>snap. out' = out0 @ [snap] \<and> assemble (Unmarshal E) cur = Some snap
                 \<and> Origin snap \<noteq> shared_id c"
    then obtain snap where "out' = out0 @ [snap]" "Origin snap \<noteq> shared_id c" by blast
    then show ?thesis by (intro exI [of _ "[snap]"]) simp
  qed
next
  assume "Poll_reach_any E c w st"
  from Poll_reach_any_out [OF this]
  show "\<forall>snap \<in> set (out st). Origin snap \<noteq> shared_id c"
    by simp
next
  assume "Poll_reach E c w st"
  from Poll_reach_any_out [OF Poll_reach_sub [OF this]]
  show "\<forall>snap \<in> set (out st). Origin snap \<noteq> shared_id c"
    by simp
qed

theorem Poll_filters_self_witness:
  "Poll_complete (demo_env Marshal_small (Do_server (origin_json ''deadbeef''))) demo_client
       (state_fetched (origin_json ''deadbeef'')) [] = (state_zero, [])
   \<and> Origin (origin_snapshot ''deadbeef'') = shared_id demo_client
   \<and> Poll_complete (demo_env Marshal_small (Do_server (origin_json ''other''))) demo_client
       (state_fetched (origin_json ''other'')) [] = (state_zero, [origin_snapshot ''other''])
   \<and> Poll_reach_any (demo_env Marshal_small (Do_server (origin_json ''other''))) demo_client 0
       \<lparr>current = state_zero, out = [origin_snapshot ''other''], io = after_fetch\<rparr>
   \<and> Origin (origin_snapshot ''other'') \<noteq> shared_id demo_client
   \<and> Poll_reach (demo_env Marshal_small (Do_server (origin_json ''other''))) demo_client 0 (Poll_init 0)"
proof -
  let ?E = "demo_env Marshal_small (Do_server (origin_json ''other''))"
  let ?st = "\<lparr>current = state_zero, out = [origin_snapshot ''other''], io = after_fetch\<rparr>"
  have r: "Poll_reach_any ?E demo_client 0 ?st"
    by (rule demo_reach_any)
  have "\<forall>snap \<in> set (out ?st). Origin snap \<noteq> shared_id demo_client"
    using Poll_filters_self [of ?E demo_client state_zero "[]" state_zero "[]" 0 ?st] r by blast
  then have o: "Origin (origin_snapshot ''other'') \<noteq> shared_id demo_client"
    by simp
  have s: "Origin (origin_snapshot ''deadbeef'') = shared_id demo_client"
    by (simp add: origin_snapshot_def demo_client_def)
  show ?thesis
    using r o s demo_Poll_complete_self [of Marshal_small _ "[]"]
      demo_Poll_complete_other [of Marshal_small _ "[]"] Poll_reach.start [of ?E demo_client 0]
    by simp
qed

text \<open>
  The assemble-if-complete block does not look at the items of a snapshot: whatever
  \<open>assemble\<close> returns for a complete chunk set is written to the channel when its
  origin is not the local id. On the discover result \<open>meta_abc\<close> and two parts that
  concatenate to \<^verbatim>\<open>{"origin":"other"}\<close>, the loop body writes a snapshot with no items
  (the one \<^verbatim>\<open>TestPollPassesSnapshot\<close> waits for).
\<close>

lemma Poll_complete_forwards:
  assumes "total cur > 0" and "len_parts cur = total cur"
    and "assemble (Unmarshal E) cur = Some snap" and "Origin snap \<noteq> shared_id c"
  shows "Poll_complete E c cur out0 = (state_zero, out0 @ [snap])"
  using assms by (simp add: Poll_complete_def)

lemma Poll_body_meta_abc_no_items:
  "Poll_body (demo_env Marshal_small (Do_server (origin_json ''other''))) demo_client meta_abc
       after_discover
     = Some \<lparr>current = state_zero, out = [origin_snapshot ''other''], io = after_fetch\<rparr>
   \<and> Items (origin_snapshot ''other'') = []"
  using demo_Poll_body_other [of Marshal_small]
  by (simp add: origin_snapshot_def)

subsection \<open>discover\<close>


lemma Poll_body_zero:
  assumes "cid (current st) = []"
  shows "Poll_body E c discoverResp_zero st = Some st"
  using assms by (simp add: Poll_body_def discoverResp_zero_def)



text \<open>
  C2 fails on the code. The server answers the discover request with the body
  \<^verbatim>\<open>{"cid":"abc","total":2,"have":[0,1]}\<close> and holds both parts, the decoder accepts
  the body, and no session is in progress: \<open>discover\<close> returns the zero
  \<open>discoverResp\<close>, and the iteration ends with no session, nothing on the channel, and
  the discover request as the only request sent: no part is fetched, no snapshot is
  emitted. (Run on the result this body is meant to decode to, \<open>meta_abc\<close>, the loop
  body does what the claim says: see \<open>demo_Poll_body_other\<close>.)
\<close>

theorem Poll_discover_abc:
  "Do (demo_env Marshal_small (Do_server (origin_json ''other''))) (discover_request demo_client) 0
     = (reply 200 discover_body, 1)
   \<and> Decode_accepts (demo_env Marshal_small (Do_server (origin_json ''other''))) discover_body
   \<and> discover (demo_env Marshal_small (Do_server (origin_json ''other''))) demo_client
        (io (Poll_init 0)) = Some (Inr discoverResp_zero, io after_discover)
   \<and> Poll_iter (demo_env Marshal_small (Do_server (origin_json ''other''))) demo_client (Poll_init 0)
       = Some after_discover
   \<and> current after_discover = state_zero
   \<and> out after_discover = []
   \<and> sent (io after_discover) = [discover_request demo_client]"
proof -
  let ?E = "demo_env Marshal_small (Do_server (origin_json ''other''))"
  have 1: "Do ?E (discover_request demo_client) 0 = (reply 200 discover_body, 1)"
    by (simp add: Do_server_def discover_request_def)
  have 2: "Decode_accepts ?E discover_body"
    by (simp add: demo_env_def discover_body_def bytes_of_string_def)
  have 3: "discover ?E demo_client (io (Poll_init 0)) = Some (Inr discoverResp_zero, io after_discover)"
    using 1 2
    by (simp add: discover_def client_Do_def Decode_discoverResp_def Poll_init_def
          after_discover_def reply_def)
  have 4: "Poll_iter ?E demo_client (Poll_init 0) = Some after_discover"
    using 3 Poll_body_zero [of "(Poll_init 0)\<lparr>io := io after_discover\<rparr>" ?E demo_client]
    by (simp add: Poll_iter_def Poll_init_def after_discover_def state_zero_def)
  show ?thesis
    using 1 2 3 4 by (simp add: after_discover_def)
qed





end
